theory Spec2Isabelle
  imports Main "HOL-Library.Word"
begin

unbundle bit_operations_syntax

section \<open>Points, sizes and the constants of the headers\<close>

text \<open>
  A point (\<open>BasePoint\<close>, \<open>SearchmapPoint\<close>, \<open>NavmapPoint\<close>, \<open>FogPoint\<close>, \<open>Point\<close>)
  is a pair \<open>(x, y)\<close> of integers. Coordinates are unbounded integers here: none of the
  properties below depends on the overflow of a 32-bit coordinate.
\<close>

type_synonym point = "int \<times> int"

record Size =
  Size_w :: int
  Size_h :: int

text \<open>
  Modelled from the spec: \<open>Size::PointInside\<close> is declared in a header that is not part of
  \<open>Map.cpp\<close>; it is the bounds test of the store (``outside bounds''): a point lies inside
  when \<open>0 \<le> x < w\<close> and \<open>0 \<le> y < h\<close>.
\<close>

definition PointInside :: "Size \<Rightarrow> point \<Rightarrow> bool" where
  "PointInside sz p \<longleftrightarrow> 0 \<le> fst p \<and> fst p < Size_w sz \<and> 0 \<le> snd p \<and> snd p < Size_h sz"

text \<open>
  The masks, shifts and default values of \<open>TileProps\<close> are static members declared in
  \<open>Map.h\<close>; they are parameters of the model. \<open>Rshift\<close> is the red shift of the format of
  the property image, read by the two \<open>PaintSearchMap\<close> overloads.
\<close>

record TilePropsConsts =
  searchMapMask :: "32 word"
  materialMapMask :: "32 word"
  heightMapMask :: "32 word"
  lightMapMask :: "32 word"
  searchMapShift :: nat
  materialMapShift :: nat
  heightMapShift :: nat
  lightMapShift :: nat
  Rshift :: nat
  defaultSearchMap :: "8 word"
  defaultMaterial :: "8 word"
  defaultElevation :: "8 word"
  defaultLighting :: "8 word"

text \<open>
  The enumerators of \<open>PathMapFlags\<close> (an \<open>enum class\<close> over \<open>uint8_t\<close>, declared outside
  \<open>Map.cpp\<close>) are parameters as well.
\<close>

record PathMapFlags =
  IMPASSABLE :: "8 word"
  UNMARKED :: "8 word"
  PASSABLE :: "8 word"
  TRAVEL :: "8 word"
  NO_SEE :: "8 word"
  SIDEWALL :: "8 word"
  DOOR_OPAQUE :: "8 word"
  DOOR_IMPASSABLE :: "8 word"
  PC :: "8 word"
  NPC :: "8 word"
  ACTOR :: "8 word"
  NOTACTOR :: "8 word"

datatype Property = SEARCH_MAP | MATERIAL | ELEVATION | LIGHTING

section \<open>TileProps: the packed property raster\<close>

text \<open>
  \<open>propPtr\<close> is a raw pointer to 32-bit pixels; the model keeps the memory it points to as
  a function from the offset \<open>p.y * size.w + p.x\<close> to the pixel stored there.
\<close>

record TileProps =
  size_props :: Size
  propPtr :: "int \<Rightarrow> 32 word"

definition pixelIndex :: "TileProps \<Rightarrow> point \<Rightarrow> int" where
  "pixelIndex tp p = snd p * Size_w (size_props tp) + fst p"

definition SetTileProp :: "TilePropsConsts \<Rightarrow> TileProps \<Rightarrow> point \<Rightarrow> Property \<Rightarrow> 8 word \<Rightarrow> TileProps" where
  "SetTileProp tc tp p prop val =
     (if PointInside (size_props tp) p then
        let c = propPtr tp (pixelIndex tp p);
            c' = (case prop of
                    SEARCH_MAP \<Rightarrow> (c AND NOT (searchMapMask tc)) OR push_bit (searchMapShift tc) (ucast val)
                  | MATERIAL \<Rightarrow> (c AND NOT (materialMapMask tc)) OR push_bit (materialMapShift tc) (ucast val)
                  | ELEVATION \<Rightarrow> (c AND NOT (heightMapMask tc)) OR push_bit (heightMapShift tc) (ucast val)
                  | LIGHTING \<Rightarrow> (c AND NOT (lightMapMask tc)) OR push_bit (lightMapShift tc) (ucast val))
        in tp\<lparr>propPtr := (propPtr tp)(pixelIndex tp p := c')\<rparr>
      else tp)"

text \<open>
  \<open>Property\<close> has the four values of the source, so one of the cases of each \<open>switch\<close> is
  taken and the final \<open>return -1\<close> of \<open>QueryTileProp\<close> is not reached.
\<close>

definition QueryTileProp :: "TilePropsConsts \<Rightarrow> TileProps \<Rightarrow> point \<Rightarrow> Property \<Rightarrow> 8 word" where
  "QueryTileProp tc tp p prop =
     (if PointInside (size_props tp) p then
        let c = propPtr tp (pixelIndex tp p)
        in (case prop of
              SEARCH_MAP \<Rightarrow> ucast (drop_bit (searchMapShift tc) (c AND searchMapMask tc))
            | MATERIAL \<Rightarrow> ucast (drop_bit (materialMapShift tc) (c AND materialMapMask tc))
            | ELEVATION \<Rightarrow> ucast (drop_bit (heightMapShift tc) (c AND heightMapMask tc))
            | LIGHTING \<Rightarrow> ucast (drop_bit (lightMapShift tc) (c AND lightMapMask tc)))
      else (case prop of
              SEARCH_MAP \<Rightarrow> defaultSearchMap tc
            | MATERIAL \<Rightarrow> defaultMaterial tc
            | ELEVATION \<Rightarrow> defaultElevation tc
            | LIGHTING \<Rightarrow> defaultLighting tc))"

definition QuerySearchMap :: "TilePropsConsts \<Rightarrow> TileProps \<Rightarrow> point \<Rightarrow> 8 word" where
  "QuerySearchMap tc tp p = QueryTileProp tc tp p SEARCH_MAP"

section \<open>Errors and loop outcomes\<close>

text \<open>
  The disc scans read the points of \<open>PlotCircle\<close> in pairs and assert that each pair is a
  row span. A failed assertion and a read past the end of the vector are values of the
  model. A scan either fails, leaves the function early (\<open>return PathMapFlags::IMPASSABLE\<close>
  inside the loop) or completes with the accumulated flags.
\<close>

datatype error = AssertionFailed | OutOfRange

datatype 'a outcome = Failed error | EarlyReturn | Completed 'a

definition MAX_CIRCLESIZE :: "16 word" where
  "MAX_CIRCLESIZE = 8"

text \<open>
  Modelled from the spec: the template \<open>Clamp\<close> is defined outside \<open>Map.cpp\<close>; it clamps
  its first argument into the interval of the other two.
\<close>

definition Clamp :: "'a::linorder \<Rightarrow> 'a \<Rightarrow> 'a \<Rightarrow> 'a" where
  "Clamp n lower upper = max lower (min n upper)"

section \<open>Search-map queries\<close>

definition GetBlockedTile :: "PathMapFlags \<Rightarrow> TilePropsConsts \<Rightarrow> TileProps \<Rightarrow> point \<Rightarrow> 8 word" where
  "GetBlockedTile fl tc tp p =
     (let ret = QuerySearchMap tc tp p;
          ret = (if ret AND TRAVEL fl \<noteq> 0 then ret OR PASSABLE fl else ret);
          ret = (if ret AND (DOOR_IMPASSABLE fl OR ACTOR fl) \<noteq> 0 then ret AND NOT (PASSABLE fl) else ret)
      in if ret AND DOOR_OPAQUE fl \<noteq> 0 then SIDEWALL fl else ret)"

text \<open>
  The two statements that close \<open>GetBlockedInRadiusTile\<close>, \<open>GetBlockedInLine\<close> and
  \<open>GetBlockedInLineTile\<close>, applied to the accumulated flags \<open>ret\<close>.
\<close>

definition combineAccumulated :: "PathMapFlags \<Rightarrow> 8 word \<Rightarrow> 8 word" where
  "combineAccumulated fl ret =
     (let ret = (if ret AND (DOOR_IMPASSABLE fl OR ACTOR fl OR SIDEWALL fl) \<noteq> 0
                 then ret AND NOT (PASSABLE fl) else ret)
      in if ret AND DOOR_OPAQUE fl \<noteq> 0 then SIDEWALL fl else ret)"

text \<open>The radius \<open>r\<close> of the disc scanned by \<open>GetBlockedInRadiusTile\<close>.\<close>

definition blockedRadius :: "16 word \<Rightarrow> 16 word" where
  "blockedRadius sz = Clamp sz 2 MAX_CIRCLESIZE - 2"

text \<open>The inner loop \<open>for (int x = p2.x; x <= p1.x; ++x)\<close> over the cells of one row.\<close>

fun scanRow :: "PathMapFlags \<Rightarrow> TilePropsConsts \<Rightarrow> TileProps \<Rightarrow> bool \<Rightarrow> int \<Rightarrow> int list \<Rightarrow> 8 word \<Rightarrow> 8 word option" where
  "scanRow fl tc tp stopOnImpassable y [] ret = Some ret"
| "scanRow fl tc tp stopOnImpassable y (x # xs) ret =
     (let flags = GetBlockedTile fl tc tp (x, y)
      in if stopOnImpassable \<and> flags = IMPASSABLE fl then None
         else scanRow fl tc tp stopOnImpassable y xs (ret OR flags))"

text \<open>The outer loop over the pairs \<open>points[i]\<close>, \<open>points[i + 1]\<close>.\<close>

fun scanSpans :: "PathMapFlags \<Rightarrow> TilePropsConsts \<Rightarrow> TileProps \<Rightarrow> bool \<Rightarrow> point list \<Rightarrow> 8 word \<Rightarrow> 8 word outcome" where
  "scanSpans fl tc tp stopOnImpassable [] ret = Completed ret"
| "scanSpans fl tc tp stopOnImpassable [p1] ret = Failed OutOfRange"
| "scanSpans fl tc tp stopOnImpassable (p1 # p2 # ps) ret =
     (if snd p1 \<noteq> snd p2 \<or> fst p1 < fst p2 then Failed AssertionFailed
      else (case scanRow fl tc tp stopOnImpassable (snd p1) [fst p2..fst p1] ret of
              None \<Rightarrow> EarlyReturn
            | Some ret' \<Rightarrow> scanSpans fl tc tp stopOnImpassable ps ret'))"

text \<open>
  \<open>PlotCircle\<close> is defined outside \<open>Map.cpp\<close>: it is the parameter \<open>plot\<close>, from the centre
  and the radius to the vector of points.
\<close>

definition radiusPoints :: "(point \<Rightarrow> nat \<Rightarrow> point list) \<Rightarrow> point \<Rightarrow> 16 word \<Rightarrow> point list" where
  "radiusPoints plot tp sz =
     (let r = blockedRadius sz in if r = 0 then [tp, tp] else plot tp (unat r))"

definition GetBlockedInRadiusTile ::
  "PathMapFlags \<Rightarrow> TilePropsConsts \<Rightarrow> (point \<Rightarrow> nat \<Rightarrow> point list) \<Rightarrow> TileProps \<Rightarrow> point \<Rightarrow> 16 word \<Rightarrow> bool \<Rightarrow> error + 8 word" where
  "GetBlockedInRadiusTile fl tc plot tp p sz stopOnImpassable =
     (case scanSpans fl tc tp stopOnImpassable (radiusPoints plot p sz) (IMPASSABLE fl) of
        Failed e \<Rightarrow> Inl e
      | EarlyReturn \<Rightarrow> Inr (IMPASSABLE fl)
      | Completed ret \<Rightarrow> Inr (combineAccumulated fl ret))"

text \<open>
  The overloads with a size argument. \<open>stopDefault\<close> is the default value of the parameter
  \<open>stopOnImpassable\<close>, declared in \<open>Map.h\<close>; \<open>toSearchmap\<close> is the conversion
  \<open>SearchmapPoint(p)\<close> of a navigation-map point. The \<open>int\<close> size is converted to
  \<open>uint16_t\<close> on the way to \<open>GetBlockedInRadiusTile\<close>.
\<close>

definition GetBlockedTile_size ::
  "PathMapFlags \<Rightarrow> TilePropsConsts \<Rightarrow> (point \<Rightarrow> nat \<Rightarrow> point list) \<Rightarrow> bool \<Rightarrow> TileProps \<Rightarrow> point \<Rightarrow> int \<Rightarrow> error + 8 word" where
  "GetBlockedTile_size fl tc plot stopDefault tp p sz =
     (if sz = - 1 then Inr (GetBlockedTile fl tc tp p)
      else GetBlockedInRadiusTile fl tc plot tp p (word_of_int sz) stopDefault)"

definition GetBlocked :: "PathMapFlags \<Rightarrow> TilePropsConsts \<Rightarrow> (point \<Rightarrow> point) \<Rightarrow> TileProps \<Rightarrow> point \<Rightarrow> 8 word" where
  "GetBlocked fl tc toSearchmap tp p = GetBlockedTile fl tc tp (toSearchmap p)"

definition GetBlockedInRadius ::
  "PathMapFlags \<Rightarrow> TilePropsConsts \<Rightarrow> (point \<Rightarrow> nat \<Rightarrow> point list) \<Rightarrow> (point \<Rightarrow> point) \<Rightarrow> TileProps \<Rightarrow> point \<Rightarrow> 32 word \<Rightarrow> bool \<Rightarrow> error + 8 word" where
  "GetBlockedInRadius fl tc plot toSearchmap tp p sz stopOnImpassable =
     GetBlockedInRadiusTile fl tc plot tp (toSearchmap p) (ucast sz) stopOnImpassable"

definition GetBlocked_size ::
  "PathMapFlags \<Rightarrow> TilePropsConsts \<Rightarrow> (point \<Rightarrow> nat \<Rightarrow> point list) \<Rightarrow> (point \<Rightarrow> point) \<Rightarrow> bool \<Rightarrow> TileProps \<Rightarrow> point \<Rightarrow> int \<Rightarrow> error + 8 word" where
  "GetBlocked_size fl tc plot toSearchmap stopDefault tp p sz =
     (if sz = - 1 then Inr (GetBlocked fl tc toSearchmap tp p)
      else GetBlockedInRadius fl tc plot toSearchmap tp p (word_of_int sz) stopDefault)"

section \<open>Actors\<close>

text \<open>
  The fields and accessors of \<open>Movable\<close> and \<open>Actor\<close> that the functions below read:
  the position, the search-map position, the circle size (as converted to the \<open>uint16_t\<close>
  parameter it is passed to), \<open>IsPC()\<close>, \<open>BlocksSearchMap()\<close>, the modified stats
  \<open>IE_EXPLORE\<close> and \<open>IE_STATE_ID\<close>, \<open>GetVisualRange()\<close> and the circle size of the
  animation.
\<close>

record Actor =
  Pos :: point
  SMPos :: point
  circleSize :: "16 word"
  IsPC :: bool
  BlocksSearchMap :: bool
  Modified_EXPLORE :: "32 word"
  Modified_STATE_ID :: "32 word"
  VisualRange :: int
  AnimCircleSize :: int

section \<open>The line query\<close>

text \<open>
  \<open>GetBlockedInLine\<close> moves \<open>p\<close> towards \<open>d\<close> in floating point (\<open>NormalizeDeltas\<close>, which
  is defined elsewhere, and a truncating addition). The parameter \<open>advance\<close> stands for one
  such move: from the caller, \<open>p\<close> and \<open>d\<close> to the next \<open>p\<close>. The loop \<open>while (p != d)\<close>
  need not end, so the model counts its iterations down from \<open>fuel\<close>; \<open>None\<close> means that
  the fuel ran out.
\<close>

fun lineLoop ::
  "PathMapFlags \<Rightarrow> TilePropsConsts \<Rightarrow> (point \<Rightarrow> nat \<Rightarrow> point list) \<Rightarrow> (point \<Rightarrow> point) \<Rightarrow> bool
   \<Rightarrow> (Actor option \<Rightarrow> point \<Rightarrow> point \<Rightarrow> point) \<Rightarrow> TileProps \<Rightarrow> point \<Rightarrow> point \<Rightarrow> bool \<Rightarrow> Actor option
   \<Rightarrow> nat \<Rightarrow> point \<Rightarrow> 8 word \<Rightarrow> 8 word outcome option" where
  "lineLoop fl tc plot toSearchmap stopDefault advance tp sms d stopOnImpassable caller 0 p ret = None"
| "lineLoop fl tc plot toSearchmap stopDefault advance tp sms d stopOnImpassable caller (Suc fuel) p ret =
     (if p = d then Some (Completed ret)
      else
        let p' = advance caller p d;
            smp = toSearchmap p'
        in if sms = smp
           then lineLoop fl tc plot toSearchmap stopDefault advance tp sms d stopOnImpassable caller fuel p' ret
           else
             (case (case caller of
                      Some c \<Rightarrow> if stopOnImpassable
                                then GetBlockedInRadiusTile fl tc plot tp smp (circleSize c) stopDefault
                                else Inr (GetBlockedTile fl tc tp smp)
                    | None \<Rightarrow> Inr (GetBlockedTile fl tc tp smp)) of
                Inl e \<Rightarrow> Some (Failed e)
              | Inr blockStatus \<Rightarrow>
                  if stopOnImpassable \<and> blockStatus = IMPASSABLE fl then Some EarlyReturn
                  else lineLoop fl tc plot toSearchmap stopDefault advance tp sms d stopOnImpassable caller
                         fuel p' (ret OR blockStatus)))"

definition GetBlockedInLine ::
  "PathMapFlags \<Rightarrow> TilePropsConsts \<Rightarrow> (point \<Rightarrow> nat \<Rightarrow> point list) \<Rightarrow> (point \<Rightarrow> point) \<Rightarrow> bool
   \<Rightarrow> (Actor option \<Rightarrow> point \<Rightarrow> point \<Rightarrow> point) \<Rightarrow> nat \<Rightarrow> TileProps \<Rightarrow> point \<Rightarrow> point \<Rightarrow> bool \<Rightarrow> Actor option
   \<Rightarrow> (error + 8 word) option" where
  "GetBlockedInLine fl tc plot toSearchmap stopDefault advance fuel tp s d stopOnImpassable caller =
     (case lineLoop fl tc plot toSearchmap stopDefault advance tp (toSearchmap s) d stopOnImpassable caller
             fuel s (IMPASSABLE fl) of
        None \<Rightarrow> None
      | Some (Failed e) \<Rightarrow> Some (Inl e)
      | Some EarlyReturn \<Rightarrow> Some (Inr (IMPASSABLE fl))
      | Some (Completed ret) \<Rightarrow> Some (Inr (combineAccumulated fl ret)))"

section \<open>Painting footprints\<close>

text \<open>The lambda \<open>PaintIfPassable\<close> of the disc overload of \<open>PaintSearchMap\<close>.\<close>

definition PaintIfPassable :: "PathMapFlags \<Rightarrow> TilePropsConsts \<Rightarrow> 8 word \<Rightarrow> TileProps \<Rightarrow> point \<Rightarrow> TileProps" where
  "PaintIfPassable fl tc val tp pos =
     (let mapval = QuerySearchMap tc tp pos
      in if mapval \<noteq> IMPASSABLE fl then
           let newVal = (mapval AND NOTACTOR fl) OR val;
               pixel = propPtr tp (pixelIndex tp pos)
           in tp\<lparr>propPtr := (propPtr tp)(pixelIndex tp pos :=
                   (pixel AND NOT (searchMapMask tc)) OR push_bit (Rshift tc) (ucast newVal))\<rparr>
         else tp)"

text \<open>The single-point overload of \<open>PaintSearchMap\<close>.\<close>

definition PaintSearchMap :: "TilePropsConsts \<Rightarrow> TileProps \<Rightarrow> point \<Rightarrow> 8 word \<Rightarrow> TileProps" where
  "PaintSearchMap tc tp p val =
     (if \<not> PointInside (size_props tp) p then tp
      else
        let pixel = propPtr tp (pixelIndex tp p)
        in tp\<lparr>propPtr := (propPtr tp)(pixelIndex tp p :=
                (pixel AND NOT (searchMapMask tc)) OR push_bit (Rshift tc) (ucast val))\<rparr>)"

text \<open>The radius \<open>r\<close> of the disc stamped by the disc overload of \<open>PaintSearchMap\<close>.\<close>

definition paintRadius :: "16 word \<Rightarrow> 16 word" where
  "paintRadius blocksize = Clamp blocksize 1 MAX_CIRCLESIZE - 1"

definition paintRow :: "PathMapFlags \<Rightarrow> TilePropsConsts \<Rightarrow> 8 word \<Rightarrow> int \<Rightarrow> int list \<Rightarrow> TileProps \<Rightarrow> TileProps" where
  "paintRow fl tc val y xs tp = fold (\<lambda>x t. PaintIfPassable fl tc val t (x, y)) xs tp"

fun paintSpans :: "PathMapFlags \<Rightarrow> TilePropsConsts \<Rightarrow> 8 word \<Rightarrow> point list \<Rightarrow> TileProps \<Rightarrow> error + TileProps" where
  "paintSpans fl tc val [] tp = Inr tp"
| "paintSpans fl tc val [p1] tp = Inl OutOfRange"
| "paintSpans fl tc val (p1 # p2 # ps) tp =
     (if snd p1 \<noteq> snd p2 \<or> fst p1 < fst p2 then Inl AssertionFailed
      else paintSpans fl tc val ps (paintRow fl tc val (snd p1) [fst p2..fst p1] tp))"

definition PaintSearchMap_disc ::
  "PathMapFlags \<Rightarrow> TilePropsConsts \<Rightarrow> (point \<Rightarrow> nat \<Rightarrow> point list) \<Rightarrow> TileProps \<Rightarrow> point \<Rightarrow> 16 word \<Rightarrow> 8 word \<Rightarrow> error + TileProps" where
  "PaintSearchMap_disc fl tc plot tp p blocksize val =
     paintSpans fl tc val (plot p (unat (paintRadius blocksize))) tp"

definition BlockSearchMapFor ::
  "PathMapFlags \<Rightarrow> TilePropsConsts \<Rightarrow> (point \<Rightarrow> nat \<Rightarrow> point list) \<Rightarrow> TileProps \<Rightarrow> Actor \<Rightarrow> error + TileProps" where
  "BlockSearchMapFor fl tc plot tp actor =
     PaintSearchMap_disc fl tc plot tp (SMPos actor) (circleSize actor) (if IsPC actor then PC fl else NPC fl)"

text \<open>The loop of \<open>ClearSearchMapFor\<close> over the neighbours.\<close>

fun restoreNeighbours ::
  "PathMapFlags \<Rightarrow> TilePropsConsts \<Rightarrow> (point \<Rightarrow> nat \<Rightarrow> point list) \<Rightarrow> Actor list \<Rightarrow> TileProps \<Rightarrow> error + TileProps" where
  "restoreNeighbours fl tc plot [] tp = Inr tp"
| "restoreNeighbours fl tc plot (neighbour # rest) tp =
     (if BlocksSearchMap neighbour then
        (case BlockSearchMapFor fl tc plot tp neighbour of
           Inl e \<Rightarrow> Inl e
         | Inr tp' \<Rightarrow> restoreNeighbours fl tc plot rest tp')
      else restoreNeighbours fl tc plot rest tp)"

text \<open>
  \<open>ClearSearchMapFor\<close>. The vector \<open>nearActors\<close> is what \<open>GetAllActorsInRadius\<close> returned
  for the actor (its filters \<open>WithinRange\<close> and \<open>ValidTarget\<close> are defined elsewhere); it is
  computed before the footprint is cleared and does not depend on the search map, because
  the call passes \<open>GA_NO_LOS\<close>.
\<close>

definition ClearSearchMapFor ::
  "PathMapFlags \<Rightarrow> TilePropsConsts \<Rightarrow> (point \<Rightarrow> nat \<Rightarrow> point list) \<Rightarrow> Actor list \<Rightarrow> TileProps \<Rightarrow> Actor \<Rightarrow> error + TileProps" where
  "ClearSearchMapFor fl tc plot nearActors tp actor =
     (case PaintSearchMap_disc fl tc plot tp (SMPos actor) (circleSize actor) (UNMARKED fl) of
        Inl e \<Rightarrow> Inl e
      | Inr tp' \<Rightarrow> restoreNeighbours fl tc plot nearActors tp')"

section \<open>Fog of war\<close>

text \<open>
  Modelled from the spec: the class \<open>Bitmap\<close> is declared outside \<open>Map.cpp\<close>. A fog bitmap
  holds one bit per fog-cell of its size. \<open>GetAt(p, oobval)\<close> returns \<open>oobval\<close> for a point
  outside the bitmap and the stored bit otherwise; \<open>bitmap[p] = true\<close> sets the bit of \<open>p\<close>;
  \<open>fill\<close> with \<open>0xff\<close> sets every bit and \<open>fill\<close> with \<open>0\<close> clears every bit.
\<close>

record Bitmap =
  bm_size :: Size
  bits :: "point \<Rightarrow> bool"

definition Bitmap_GetAt :: "Bitmap \<Rightarrow> point \<Rightarrow> bool \<Rightarrow> bool" where
  "Bitmap_GetAt bm p oobval = (if PointInside (bm_size bm) p then bits bm p else oobval)"

definition Bitmap_set :: "Bitmap \<Rightarrow> point \<Rightarrow> Bitmap" where
  "Bitmap_set bm p = bm\<lparr>bits := (bits bm)(p := True)\<rparr>"

definition Bitmap_fill :: "Bitmap \<Rightarrow> bool \<Rightarrow> Bitmap" where
  "Bitmap_fill bm b = bm\<lparr>bits := (\<lambda>p. b)\<rparr>"

text \<open>
  The constants of other headers that \<open>Map.cpp\<close> tests: the area types, the actor states and
  the wall flag \<open>WF_DISABLED\<close>.
\<close>

record MapConsts =
  AT_OUTDOOR :: "32 word"
  AT_CITY :: "32 word"
  STATE_CANTSEE :: "32 word"
  STATE_BLIND :: "32 word"
  WF_DISABLED :: "32 word"

record Region =
  Region_x :: int
  Region_y :: int
  Region_w :: int
  Region_h :: int

record WallPolygon =
  wallFlag :: "32 word"
  BBox :: Region
  base0 :: point
  base1 :: point
  outline :: "point list"

text \<open>The members of \<open>Map\<close> (and of its \<open>TMap\<close>) that the functions below read or write.\<close>

record Map =
  tileProps :: TileProps
  ExploredBitmap :: Bitmap
  VisibleBitmap :: Bitmap
  XCellCount :: int
  YCellCount :: int
  AreaType :: "32 word"
  actors :: "Actor list"
  wallGroups :: "WallPolygon list list"

text \<open>
  The singleton \<open>Explore\<close>. \<open>VisibilityMasks i p\<close> stands for \<open>VisibilityMasks[i][p]\<close>; the
  constructor sizes every vector to \<open>VisibilityPerimeter\<close>, and the array has
  \<open>MaxVisibility\<close> entries, so the reads of \<open>ExploreMapChunk\<close> are within range.
\<close>

record Explore =
  LargeFog :: int
  VisibilityPerimeter :: nat
  VisibilityMasks :: "nat \<Rightarrow> nat \<Rightarrow> point"

definition MaxVisibility :: int where
  "MaxVisibility = 30"

definition FogMapSize :: "Explore \<Rightarrow> Map \<Rightarrow> Size" where
  "FogMapSize ex m = \<lparr>Size_w = XCellCount m * 2 + LargeFog ex, Size_h = YCellCount m * 2 + LargeFog ex\<rparr>"

definition FogTileUncovered :: "(point \<Rightarrow> point) \<Rightarrow> point \<Rightarrow> Bitmap option \<Rightarrow> bool" where
  "FogTileUncovered fogOfPoint p bitmap =
     (case bitmap of
        None \<Rightarrow> True
      | Some bm \<Rightarrow> Bitmap_GetAt bm (fogOfPoint p) False)"

definition IsVisible :: "(point \<Rightarrow> point) \<Rightarrow> Map \<Rightarrow> point \<Rightarrow> bool" where
  "IsVisible fogOfPoint m pos = FogTileUncovered fogOfPoint pos (Some (VisibleBitmap m))"

definition IsExplored :: "(point \<Rightarrow> point) \<Rightarrow> Map \<Rightarrow> point \<Rightarrow> bool" where
  "IsExplored fogOfPoint m pos = FogTileUncovered fogOfPoint pos (Some (ExploredBitmap m))"

definition FillExplored :: "Map \<Rightarrow> bool \<Rightarrow> Map" where
  "FillExplored m explored = m\<lparr>ExploredBitmap := Bitmap_fill (ExploredBitmap m) explored\<rparr>"

definition ExploreTile :: "Explore \<Rightarrow> Map \<Rightarrow> point \<Rightarrow> bool \<Rightarrow> Map" where
  "ExploreTile ex m fogP fogOnly =
     (if \<not> PointInside (FogMapSize ex m) fogP then m
      else
        let m' = m\<lparr>ExploredBitmap := Bitmap_set (ExploredBitmap m) fogP\<rparr>
        in if \<not> fogOnly then m'\<lparr>VisibleBitmap := Bitmap_set (VisibleBitmap m') fogP\<rparr> else m')"

text \<open>
  The block \<open>if (!block) { ... }\<close> of the inner loop of \<open>ExploreMapChunk\<close>: the new values
  of \<open>block\<close>, \<open>sidewall\<close> and \<open>fogOnly\<close> after looking at the tile.
\<close>

definition lookAtTile ::
  "MapConsts \<Rightarrow> PathMapFlags \<Rightarrow> TilePropsConsts \<Rightarrow> Map \<Rightarrow> point \<Rightarrow> bool \<times> bool \<times> bool \<Rightarrow> bool \<times> bool \<times> bool" where
  "lookAtTile mc fl tc m tile st =
     (case st of (block, sidewall, fogOnly) \<Rightarrow>
        if \<not> block then
          let type = GetBlockedTile fl tc (tileProps m) tile
          in if type AND NO_SEE fl \<noteq> 0 then (True, sidewall, fogOnly)
             else if type AND SIDEWALL fl \<noteq> 0 then (block, True, fogOnly)
             else if sidewall then (True, sidewall, fogOnly)
             else if type AND DOOR_IMPASSABLE fl \<noteq> 0 \<and> AreaType m AND AT_OUTDOOR mc \<noteq> 0
                     \<and> AreaType m AND AT_CITY mc = 0
                  then (block, sidewall, True)
                  else (block, sidewall, fogOnly)
        else (block, sidewall, fogOnly))"

text \<open>
  The inner loop of \<open>ExploreMapChunk\<close> along the ray \<open>p\<close>, over the steps \<open>i\<close> that are
  left. The state is \<open>Pass\<close> and \<open>(block, sidewall, fogOnly)\<close>; \<open>fogOfTile\<close> is the conversion
  \<open>FogPoint(tile)\<close> of a search-map point. With \<open>block\<close> set, \<open>Pass\<close> is decremented and the
  loop is left when it reaches 0.
\<close>

fun exploreRay ::
  "MapConsts \<Rightarrow> PathMapFlags \<Rightarrow> TilePropsConsts \<Rightarrow> Explore \<Rightarrow> (point \<Rightarrow> point) \<Rightarrow> point \<Rightarrow> int \<Rightarrow> nat
   \<Rightarrow> nat list \<Rightarrow> int \<Rightarrow> bool \<times> bool \<times> bool \<Rightarrow> Map \<Rightarrow> Map" where
  "exploreRay mc fl tc ex fogOfTile pos los p [] Pass st m = m"
| "exploreRay mc fl tc ex fogOfTile pos los p (i # rest) Pass st m =
     (let tile = (fst pos + fst (VisibilityMasks ex i p), snd pos + snd (VisibilityMasks ex i p));
          fogTile = fogOfTile tile
      in if los = 0
         then exploreRay mc fl tc ex fogOfTile pos los p rest Pass st (ExploreTile ex m fogTile (snd (snd st)))
         else
           let st' = lookAtTile mc fl tc m tile st;
               Pass' = (if fst st' then Pass - 1 else Pass)
           in if fst st' \<and> Pass' = 0 then m
              else exploreRay mc fl tc ex fogOfTile pos los p rest Pass' st'
                     (ExploreTile ex m fogTile (snd (snd st'))))"

text \<open>The outer loop \<open>while (p--)\<close>: the rays \<open>VisibilityPerimeter - 1\<close> down to \<open>0\<close>.\<close>

definition ExploreMapChunk ::
  "MapConsts \<Rightarrow> PathMapFlags \<Rightarrow> TilePropsConsts \<Rightarrow> Explore \<Rightarrow> (point \<Rightarrow> point) \<Rightarrow> Map \<Rightarrow> point \<Rightarrow> int \<Rightarrow> int \<Rightarrow> Map" where
  "ExploreMapChunk mc fl tc ex fogOfTile m pos range0 los =
     (let range' = (if range0 > MaxVisibility then MaxVisibility else range0)
      in fold (\<lambda>p m'. exploreRay mc fl tc ex fogOfTile pos los p [0..<nat range'] 2 (False, False, False) m')
           (rev [0..<VisibilityPerimeter ex]) m)"

text \<open>
  \<open>UpdateFog\<close>, as far as the map is concerned: \<open>inCutScene\<close> is the value of
  \<open>core->InCutSceneMode()\<close>. The spawn points collected in the loop are triggered after it;
  this touches neither bitmap and is left out.
\<close>

definition updateFogActor ::
  "MapConsts \<Rightarrow> PathMapFlags \<Rightarrow> TilePropsConsts \<Rightarrow> Explore \<Rightarrow> (point \<Rightarrow> point) \<Rightarrow> Actor \<Rightarrow> Map \<Rightarrow> Map" where
  "updateFogActor mc fl tc ex fogOfTile actor m =
     (if Modified_EXPLORE actor = 0 then m
      else
        let state = Modified_STATE_ID actor
        in if state AND STATE_CANTSEE mc \<noteq> 0 then m
           else
             let vis2 = VisualRange actor;
                 vis2 = (if state AND STATE_BLIND mc \<noteq> 0 \<or> vis2 < 2 then 2 else vis2)
             in ExploreMapChunk mc fl tc ex fogOfTile m (SMPos actor) (vis2 + AnimCircleSize actor) 1)"

definition UpdateFog ::
  "MapConsts \<Rightarrow> PathMapFlags \<Rightarrow> TilePropsConsts \<Rightarrow> Explore \<Rightarrow> (point \<Rightarrow> point) \<Rightarrow> bool \<Rightarrow> Map \<Rightarrow> Map" where
  "UpdateFog mc fl tc ex fogOfTile inCutScene m =
     (let m0 = (if \<not> inCutScene then m\<lparr>VisibleBitmap := Bitmap_fill (VisibleBitmap m) False\<rparr> else m)
      in fold (updateFogActor mc fl tc ex fogOfTile) (actors m0) m0)"

text \<open>A sequence of calls of the three fog operations.\<close>

datatype fogCall =
  CallExploreTile point bool
| CallExploreMapChunk point int int
| CallUpdateFog bool

fun runFogCall ::
  "MapConsts \<Rightarrow> PathMapFlags \<Rightarrow> TilePropsConsts \<Rightarrow> Explore \<Rightarrow> (point \<Rightarrow> point) \<Rightarrow> fogCall \<Rightarrow> Map \<Rightarrow> Map" where
  "runFogCall mc fl tc ex fogOfTile (CallExploreTile fogP fogOnly) m = ExploreTile ex m fogP fogOnly"
| "runFogCall mc fl tc ex fogOfTile (CallExploreMapChunk pos range0 los) m =
     ExploreMapChunk mc fl tc ex fogOfTile m pos range0 los"
| "runFogCall mc fl tc ex fogOfTile (CallUpdateFog inCutScene) m = UpdateFog mc fl tc ex fogOfTile inCutScene m"

definition runFogCalls ::
  "MapConsts \<Rightarrow> PathMapFlags \<Rightarrow> TilePropsConsts \<Rightarrow> Explore \<Rightarrow> (point \<Rightarrow> point) \<Rightarrow> fogCall list \<Rightarrow> Map \<Rightarrow> Map" where
  "runFogCalls mc fl tc ex fogOfTile calls m = fold (runFogCall mc fl tc ex fogOfTile) calls m"

section \<open>Walls intersecting a region\<close>

text \<open>
  Modelled from the spec: the template \<open>CeilDiv\<close> is defined outside \<open>Map.cpp\<close>; it is the
  quotient rounded up (``pitch = ceil(map-width / bucket-width)''), here in the arithmetic of
  \<open>uint32_t\<close>.
\<close>

definition CeilDiv :: "32 word \<Rightarrow> 32 word \<Rightarrow> 32 word" where
  "CeilDiv dividend divisor = (dividend + divisor - 1) div divisor"

definition groupHeight :: "32 word" where
  "groupHeight = 480"

definition groupWidth :: "32 word" where
  "groupWidth = 640"

text \<open>The clipping of the region to non-negative coordinates at the start of the function.\<close>

definition clipRegion :: "Region \<Rightarrow> Region" where
  "clipRegion r =
     (let r = (if Region_x r < 0 then r\<lparr>Region_w := Region_w r + Region_x r, Region_x := 0\<rparr> else r)
      in if Region_y r < 0 then r\<lparr>Region_h := Region_h r + Region_y r, Region_y := 0\<rparr> else r)"

text \<open>
  The indices \<open>y * pitch + x\<close> of the groups that the two outer loops visit, in the order
  of the visit.
\<close>

definition visitedGroups :: "Map \<Rightarrow> Region \<Rightarrow> nat list" where
  "visitedGroups m r =
     (let pitch = CeilDiv (word_of_int (XCellCount m * 64)) groupWidth;
          ymin = word_of_int (Region_y r) div groupHeight;
          maxHeight = CeilDiv (word_of_int (YCellCount m * 64)) groupHeight;
          ymax = min maxHeight (CeilDiv (word_of_int (Region_y r + Region_h r)) groupHeight);
          xmin = word_of_int (Region_x r) div groupWidth;
          xmax = min pitch (CeilDiv (word_of_int (Region_x r + Region_w r)) groupWidth)
      in concat (map (\<lambda>y. map (\<lambda>x. unat ((of_nat y :: 32 word) * pitch + of_nat x)) [unat xmin..<unat xmax])
                  [unat ymin..<unat ymax]))"

text \<open>
  The loop over the walls of one group. \<open>intersects\<close> stands for \<open>Region::IntersectsRegion\<close>
  and \<open>pointBehind\<close> for \<open>WallPolygon::PointBehind\<close>, both defined elsewhere; \<open>loc\<close> is
  \<open>None\<close> for a null pointer.
\<close>

fun classifyGroup ::
  "MapConsts \<Rightarrow> (Region \<Rightarrow> Region \<Rightarrow> bool) \<Rightarrow> (WallPolygon \<Rightarrow> point \<Rightarrow> bool) \<Rightarrow> Region \<Rightarrow> bool \<Rightarrow> point option
   \<Rightarrow> WallPolygon list \<Rightarrow> WallPolygon list \<times> WallPolygon list \<Rightarrow> WallPolygon list \<times> WallPolygon list" where
  "classifyGroup mc intersects pointBehind r includeDisabled loc [] acc = acc"
| "classifyGroup mc intersects pointBehind r includeDisabled loc (wp # rest) (infront, behind) =
     (if wallFlag wp AND WF_DISABLED mc \<noteq> 0 \<and> includeDisabled = False
      then classifyGroup mc intersects pointBehind r includeDisabled loc rest (infront, behind)
      else if \<not> intersects r (BBox wp)
      then classifyGroup mc intersects pointBehind r includeDisabled loc rest (infront, behind)
      else if (case loc of None \<Rightarrow> True | Some l \<Rightarrow> pointBehind wp l)
      then classifyGroup mc intersects pointBehind r includeDisabled loc rest (infront @ [wp], behind)
      else classifyGroup mc intersects pointBehind r includeDisabled loc rest (infront, behind @ [wp]))"

text \<open>The loops over the groups; reading \<open>wallGroups\<close> past its end is an error.\<close>

fun classifyGroups ::
  "MapConsts \<Rightarrow> (Region \<Rightarrow> Region \<Rightarrow> bool) \<Rightarrow> (WallPolygon \<Rightarrow> point \<Rightarrow> bool) \<Rightarrow> Region \<Rightarrow> bool \<Rightarrow> point option
   \<Rightarrow> WallPolygon list list \<Rightarrow> nat list \<Rightarrow> WallPolygon list \<times> WallPolygon list
   \<Rightarrow> error + WallPolygon list \<times> WallPolygon list" where
  "classifyGroups mc intersects pointBehind r includeDisabled loc groups [] acc = Inr acc"
| "classifyGroups mc intersects pointBehind r includeDisabled loc groups (i # rest) acc =
     (if i < length groups
      then classifyGroups mc intersects pointBehind r includeDisabled loc groups rest
             (classifyGroup mc intersects pointBehind r includeDisabled loc (groups ! i) acc)
      else Inl OutOfRange)"

definition WallsIntersectingRegion ::
  "MapConsts \<Rightarrow> (Region \<Rightarrow> Region \<Rightarrow> bool) \<Rightarrow> (WallPolygon \<Rightarrow> point \<Rightarrow> bool) \<Rightarrow> Map \<Rightarrow> Region \<Rightarrow> bool \<Rightarrow> point option
   \<Rightarrow> error + WallPolygon list \<times> WallPolygon list" where
  "WallsIntersectingRegion mc intersects pointBehind m r includeDisabled loc =
     (let r = clipRegion r
      in classifyGroups mc intersects pointBehind r includeDisabled loc (wallGroups m)
           (visitedGroups m r) ([], []))"

text \<open>
  The walls that the loops meet, with repetitions: the concatenation of the visited groups.
\<close>

definition visitedWalls :: "Map \<Rightarrow> Region \<Rightarrow> WallPolygon list" where
  "visitedWalls m r = concat (map (\<lambda>i. wallGroups m ! i) (visitedGroups m (clipRegion r)))"

text \<open>The two filters of the loop: the disabled flag and the bounding box.\<close>

definition passesFilters :: "MapConsts \<Rightarrow> (Region \<Rightarrow> Region \<Rightarrow> bool) \<Rightarrow> Region \<Rightarrow> bool \<Rightarrow> WallPolygon \<Rightarrow> bool" where
  "passesFilters mc intersects r includeDisabled wp \<longleftrightarrow>
     \<not> (wallFlag wp AND WF_DISABLED mc \<noteq> 0 \<and> includeDisabled = False) \<and> intersects (clipRegion r) (BBox wp)"

section \<open>Assumptions on the constants, and one instance\<close>

text \<open>
  What the proofs use of the enumerators: \<open>IMPASSABLE\<close> and \<open>UNMARKED\<close> are the empty set
  of flags, \<open>ACTOR\<close> is the union of \<open>PC\<close> and \<open>NPC\<close> (both non-empty), \<open>NOTACTOR\<close> is
  its complement, and \<open>PASSABLE\<close>, \<open>SIDEWALL\<close> and \<open>DOOR_OPAQUE\<close> are pairwise disjoint.
\<close>

definition flags_ok :: "PathMapFlags \<Rightarrow> bool" where
  "flags_ok fl \<longleftrightarrow>
     IMPASSABLE fl = 0 \<and> UNMARKED fl = 0
   \<and> PC fl \<noteq> 0 \<and> NPC fl \<noteq> 0
   \<and> ACTOR fl = PC fl OR NPC fl
   \<and> NOTACTOR fl = NOT (ACTOR fl)
   \<and> SIDEWALL fl AND PASSABLE fl = 0
   \<and> SIDEWALL fl AND DOOR_OPAQUE fl = 0
   \<and> DOOR_OPAQUE fl AND PASSABLE fl = 0"

text \<open>
  What the proofs use of the layout: the search map is a byte of the pixel, the red channel
  of the image format is that byte, and a cell outside the store reads as impassable.
\<close>

definition layout_ok :: "PathMapFlags \<Rightarrow> TilePropsConsts \<Rightarrow> bool" where
  "layout_ok fl tc \<longleftrightarrow>
     searchMapShift tc \<le> 24
   \<and> searchMapMask tc = push_bit (searchMapShift tc) 255
   \<and> Rshift tc = searchMapShift tc
   \<and> defaultSearchMap tc = IMPASSABLE fl"

text \<open>
  An instance of the constants, on which the model is evaluated: one bit per flag, one byte
  per field with the search map in the highest byte.
\<close>

definition flagValues :: PathMapFlags where
  "flagValues = \<lparr>IMPASSABLE = 0, UNMARKED = 0, PASSABLE = 1, TRAVEL = 2, NO_SEE = 4, SIDEWALL = 8,
     DOOR_OPAQUE = 16, DOOR_IMPASSABLE = 32, PC = 64, NPC = 128, ACTOR = 192, NOTACTOR = 63\<rparr>"

definition layoutValues :: TilePropsConsts where
  "layoutValues = \<lparr>searchMapMask = 0xff000000, materialMapMask = 0x00ff0000,
     heightMapMask = 0x0000ff00, lightMapMask = 0x000000ff,
     searchMapShift = 24, materialMapShift = 16, heightMapShift = 8, lightMapShift = 0,
     Rshift = 24,
     defaultSearchMap = 0, defaultMaterial = 0, defaultElevation = 128, defaultLighting = 0\<rparr>"

text \<open>A store of the given size whose cells all hold the search-map value \<open>v\<close>.\<close>

definition uniformStore :: "int \<Rightarrow> int \<Rightarrow> 8 word \<Rightarrow> TileProps" where
  "uniformStore wd ht v = \<lparr>size_props = \<lparr>Size_w = wd, Size_h = ht\<rparr>, propPtr = (\<lambda>i. push_bit 24 (ucast v))\<rparr>"

text \<open>
  A stand-in for the parameter \<open>plot\<close>, on which the model is evaluated: a \<open>PlotCircle\<close>
  that is never reached (radius 0 does not call it).
\<close>

definition noPlot :: "point \<Rightarrow> nat \<Rightarrow> point list" where
  "noPlot p r = []"

section \<open>Discs and footprints\<close>

text \<open>
  Modelled from the spec: \<open>PlotCircle\<close> is defined outside \<open>Map.cpp\<close>. It decomposes a disc
  into row spans with the midpoint circle algorithm; the iteration over \<open>x\<close>, \<open>y\<close>, \<open>xc\<close>,
  \<open>yc\<close> and \<open>re\<close> is the one that the constructor of \<open>Explore\<close> runs in \<open>Map.cpp\<close>, and each
  step yields the right and the left end of four rows, in the order that the assertions of
  the disc scans expect. The theorems below hold for any \<open>PlotCircle\<close> whose result passes
  these assertions; this one is used to evaluate them.
\<close>

function plotLoop :: "point \<Rightarrow> int \<Rightarrow> int \<Rightarrow> int \<Rightarrow> int \<Rightarrow> int \<Rightarrow> point list" where
  "plotLoop origin x y xc yc re =
     (if x \<ge> y then
        [(fst origin + x, snd origin + y), (fst origin - x, snd origin + y),
         (fst origin + y, snd origin + x), (fst origin - y, snd origin + x),
         (fst origin + x, snd origin - y), (fst origin - x, snd origin - y),
         (fst origin + y, snd origin - x), (fst origin - y, snd origin - x)]
        @ (if 2 * (re + yc) + xc > 0
           then plotLoop origin (x - 1) (y + 1) (xc + 2) (yc + 2) (re + yc + xc)
           else plotLoop origin x (y + 1) xc (yc + 2) (re + yc))
      else [])"
  by pat_completeness auto
termination
  by (relation "measure (\<lambda>(origin, x, y, xc, yc, re). nat (x - y + 1))") auto

declare plotLoop.simps [simp del]

definition PlotCircle :: "point \<Rightarrow> nat \<Rightarrow> point list" where
  "PlotCircle origin r = plotLoop origin (int r) 0 (1 - 2 * int r) 1 0"

text \<open>
  The assertions of the disc scans on a vector of points: an even number of points, each
  pair on one row with the second point not to the right of the first.
\<close>

fun spansOk :: "point list \<Rightarrow> bool" where
  "spansOk [] = True"
| "spansOk [p1] = False"
| "spansOk (p1 # p2 # ps) = (snd p1 = snd p2 \<and> fst p2 \<le> fst p1 \<and> spansOk ps)"

text \<open>The cells that the disc scans visit for a vector of points.\<close>

fun spanCells :: "point list \<Rightarrow> point set" where
  "spanCells (p1 # p2 # ps) = (\<lambda>x. (x, snd p1)) ` set [fst p2..fst p1] \<union> spanCells ps"
| "spanCells ps = {}"

text \<open>The points that \<open>BlockSearchMapFor\<close> asks of \<open>PlotCircle\<close>, and the footprint of an actor.\<close>

definition footprintPoints :: "(point \<Rightarrow> nat \<Rightarrow> point list) \<Rightarrow> Actor \<Rightarrow> point list" where
  "footprintPoints plot actor = plot (SMPos actor) (unat (paintRadius (circleSize actor)))"

definition footprint :: "(point \<Rightarrow> nat \<Rightarrow> point list) \<Rightarrow> Actor \<Rightarrow> point set" where
  "footprint plot actor = spanCells (footprintPoints plot actor)"

text \<open>The value that \<open>PaintIfPassable\<close> leaves in a cell that held \<open>mapval\<close>.\<close>

definition paintedValue :: "PathMapFlags \<Rightarrow> 8 word \<Rightarrow> 8 word \<Rightarrow> 8 word" where
  "paintedValue fl val mapval = (if mapval \<noteq> IMPASSABLE fl then (mapval AND NOTACTOR fl) OR val else mapval)"

text \<open>
  \<open>BlockSearchMapFor\<close> followed by \<open>ClearSearchMapFor\<close> for the same actor, and the
  search-map value of a cell in the result.
\<close>

definition blockThenClear ::
  "PathMapFlags \<Rightarrow> TilePropsConsts \<Rightarrow> (point \<Rightarrow> nat \<Rightarrow> point list) \<Rightarrow> Actor list \<Rightarrow> TileProps \<Rightarrow> Actor \<Rightarrow> error + TileProps" where
  "blockThenClear fl tc plot nearActors tp actor =
     (case BlockSearchMapFor fl tc plot tp actor of
        Inl e \<Rightarrow> Inl e
      | Inr tp' \<Rightarrow> ClearSearchMapFor fl tc plot nearActors tp' actor)"

definition searchMapAfter :: "TilePropsConsts \<Rightarrow> error + TileProps \<Rightarrow> point \<Rightarrow> error + 8 word" where
  "searchMapAfter tc res c = (case res of Inl e \<Rightarrow> Inl e | Inr tp \<Rightarrow> Inr (QuerySearchMap tc tp c))"

text \<open>An actor at a search-map point, on which the model is evaluated.\<close>

definition actorAt :: "point \<Rightarrow> 16 word \<Rightarrow> bool \<Rightarrow> Actor" where
  "actorAt p sz pc = \<lparr>Pos = (fst p * 16, snd p * 12), SMPos = p, circleSize = sz, IsPC = pc,
     BlocksSearchMap = True, Modified_EXPLORE = 1, Modified_STATE_ID = 0, VisualRange = 2,
     AnimCircleSize = 1\<rparr>"

section \<open>The visibility masks\<close>

text \<open>
  The constructor of \<open>Explore\<close>. \<open>perimeterLoop\<close> is its second \<open>while\<close> loop: the
  destinations of the calls of \<open>AddLOS\<close>, in the order of their slots (the first loop counts
  eight slots per iteration of the same walk). \<open>AddLOS\<close> gives the entry that the call for
  a destination writes for step \<open>i\<close>; the division of \<open>int\<close> truncates. \<open>smallFog\<close> is
  \<open>core->HasFeature(GFFlags::SMALL_FOG)\<close>.
\<close>

function perimeterLoop :: "int \<Rightarrow> int \<Rightarrow> int \<Rightarrow> int \<Rightarrow> int \<Rightarrow> point list" where
  "perimeterLoop x y xc yc re =
     (if x \<ge> y then
        [(x, y), (- x, y), (- x, - y), (x, - y), (y, x), (- y, x), (- y, - x), (y, - x)]
        @ (if 2 * (re + yc) + xc > 0
           then perimeterLoop (x - 1) (y + 1) (xc + 2) (yc + 2) (re + yc + xc)
           else perimeterLoop x (y + 1) xc (yc + 2) (re + yc))
      else [])"
  by pat_completeness auto
termination
  by (relation "measure (\<lambda>(x, y, xc, yc, re). nat (x - y + 1))") auto

declare perimeterLoop.simps [simp del]

definition truncDiv :: "int \<Rightarrow> int \<Rightarrow> int" where
  "truncDiv a b = (if (a < 0) = (b < 0) then \<bar>a\<bar> div \<bar>b\<bar> else - (\<bar>a\<bar> div \<bar>b\<bar>))"

definition AddLOS :: "int \<Rightarrow> point \<Rightarrow> nat \<Rightarrow> point" where
  "AddLOS largeFog dest i =
     (let x = truncDiv (fst dest * int i + MaxVisibility div 2) MaxVisibility;
          y = truncDiv (snd dest * int i + MaxVisibility div 2) MaxVisibility
      in if largeFog \<noteq> 0 then (x + 1, y + 1) else (x, y))"

definition Explore_Get :: "bool \<Rightarrow> Explore" where
  "Explore_Get smallFog =
     (let largeFog = (if smallFog then 0 else 1);
          dests = perimeterLoop MaxVisibility 0 (1 - 2 * MaxVisibility) 1 0
      in \<lparr>LargeFog = largeFog, VisibilityPerimeter = length dests,
           VisibilityMasks = (\<lambda>i slot. AddLOS largeFog (dests ! slot) i)\<rparr>)"

text \<open>Values of the remaining parameters, and a small map, on which the model is evaluated.\<close>

definition mapConstValues :: MapConsts where
  "mapConstValues = \<lparr>AT_OUTDOOR = 1, AT_CITY = 8, STATE_CANTSEE = 0x1000, STATE_BLIND = 0x40000,
     WF_DISABLED = 0x80\<rparr>"

definition halve :: "point \<Rightarrow> point" where
  "halve p = (fst p div 2, snd p div 2)"

definition emptyBitmap :: "int \<Rightarrow> int \<Rightarrow> Bitmap" where
  "emptyBitmap wd ht = \<lparr>bm_size = \<lparr>Size_w = wd, Size_h = ht\<rparr>, bits = (\<lambda>p. False)\<rparr>"

definition smallMap :: Map where
  "smallMap = \<lparr>tileProps = uniformStore 8 8 1,
     ExploredBitmap = Bitmap_set (emptyBitmap 4 4) (0, 0),
     VisibleBitmap = emptyBitmap 4 4,
     XCellCount = 2, YCellCount = 2, AreaType = 0,
     actors = [actorAt (4, 4) 1 True],
     wallGroups = []\<rparr>"

text \<open>
  Stand-ins for the two geometric tests, and a map with four wall groups (two by two), on
  which the model is evaluated: the overlap test of two rectangles, and a comparison of the
  point with the first end of the baseline.
\<close>

definition rectsOverlap :: "Region \<Rightarrow> Region \<Rightarrow> bool" where
  "rectsOverlap a b \<longleftrightarrow>
     Region_x a < Region_x b + Region_w b \<and> Region_x b < Region_x a + Region_w a
   \<and> Region_y a < Region_y b + Region_h b \<and> Region_y b < Region_y a + Region_h a"

definition aboveBase :: "WallPolygon \<Rightarrow> point \<Rightarrow> bool" where
  "aboveBase wp l \<longleftrightarrow> snd l < snd (base0 wp)"

definition wallAt :: "32 word \<Rightarrow> int \<Rightarrow> int \<Rightarrow> int \<Rightarrow> int \<Rightarrow> WallPolygon" where
  "wallAt flag x y wd ht = \<lparr>wallFlag = flag,
     BBox = \<lparr>Region_x = x, Region_y = y, Region_w = wd, Region_h = ht\<rparr>,
     base0 = (x, y + ht), base1 = (x + wd, y + ht),
     outline = [(x, y), (x + wd, y), (x + wd, y + ht), (x, y + ht)]\<rparr>"

definition wallMap :: Map where
  "wallMap = smallMap\<lparr>XCellCount := 20, YCellCount := 15,
     wallGroups := [[wallAt 0 10 10 50 50, wallAt 0x80 100 10 50 50, wallAt 0 600 20 100 30, wallAt 0 300 300 10 10],
                    [wallAt 0 600 20 100 30],
                    [wallAt 0 10 500 50 50],
                    []]\<rparr>"

definition viewRegion :: Region where
  "viewRegion = \<lparr>Region_x = - 10, Region_y = 0, Region_w = 700, Region_h = 100\<rparr>"

text \<open>
  Modelled from the spec: the grid of wall groups is built at load time, outside \<open>Map.cpp\<close>.
  Each group covers a region of 640 by 480 pixels and holds every wall polygon whose
  bounding box intersects that region; there are \<open>pitch\<close> groups per row and \<open>maxHeight\<close>
  rows. \<open>groupsCover\<close> states this of a map, with \<open>rectsOverlap\<close> as the intersection test.
\<close>

definition gridPitch :: "Map \<Rightarrow> nat" where
  "gridPitch m = unat (CeilDiv (word_of_int (XCellCount m * 64)) groupWidth)"

definition gridHeight :: "Map \<Rightarrow> nat" where
  "gridHeight m = unat (CeilDiv (word_of_int (YCellCount m * 64)) groupHeight)"

definition groupRect :: "nat \<Rightarrow> nat \<Rightarrow> Region" where
  "groupRect gx gy = \<lparr>Region_x = int gx * 640, Region_y = int gy * 480, Region_w = 640, Region_h = 480\<rparr>"

definition groupsCover :: "Map \<Rightarrow> bool" where
  "groupsCover m \<longleftrightarrow>
     length (wallGroups m) = gridHeight m * gridPitch m
   \<and> (\<forall>gy < gridHeight m. \<forall>gx < gridPitch m. \<forall>wp \<in> set (concat (wallGroups m)).
        rectsOverlap (BBox wp) (groupRect gx gy) \<longrightarrow> wp \<in> set (wallGroups m ! (gy * gridPitch m + gx)))"


text \<open>
  A store with one occupied cell and a line that moves one cell to the right per step, on
  which the queries are evaluated.
\<close>

definition occupiedStore :: TileProps where
  "occupiedStore = SetTileProp layoutValues (uniformStore 6 6 1) (3, 2) SEARCH_MAP 128"

definition stepRight :: "Actor option \<Rightarrow> point \<Rightarrow> point \<Rightarrow> point" where
  "stepRight caller p d = (fst p + 1, snd p)"



section \<open>Facts about bits and about the instance\<close>

lemma and_not_and_self: "(x AND NOT p) AND p = (0::'a::len word)"
  by (simp add: bit_eq_iff bit_simps)

lemma or_and_nonzero: "q AND m \<noteq> 0 \<Longrightarrow> (q OR p) AND m \<noteq> (0::'a::len word)"
  by (auto simp add: bit_eq_iff bit_simps)

lemma and_not_keep: "d AND p = 0 \<Longrightarrow> (x AND NOT p) AND d = x AND (d::'a::len word)"
  by (auto simp add: bit_eq_iff bit_simps)

lemma bit_255_int: "bit (255::int) n \<longleftrightarrow> n < 8"
proof -
  have e: "(255::int) = mask 8" by (simp add: mask_eq_exp_minus_1)
  show ?thesis by (subst e) (simp add: bit_mask_iff)
qed

lemma field_roundtrip:
  fixes c :: "32 word" and v :: "8 word"
  assumes "s \<le> 24"
  shows "ucast (drop_bit s (((c AND NOT (push_bit s 255)) OR push_bit s (ucast v)) AND push_bit s 255)) = v"
  apply (rule bit_word_eqI)
  using assms apply (auto simp add: bit_simps bit_255_int)
  done

lemma flags_ok_flagValues: "flags_ok flagValues"
  by (simp add: flags_ok_def flagValues_def)

lemma layout_ok_layoutValues: "layout_ok flagValues layoutValues"
  by (simp add: layout_ok_def flagValues_def layoutValues_def)

lemma QuerySearchMap_uniformStore:
  "PointInside \<lparr>Size_w = wd, Size_h = ht\<rparr> p \<Longrightarrow> QuerySearchMap layoutValues (uniformStore wd ht v) p = v"
  apply (simp add: QuerySearchMap_def QueryTileProp_def uniformStore_def layoutValues_def)
  apply (rule bit_word_eqI)
  apply (auto simp add: bit_simps bit_255_int)
  done

lemma pixelIndex_inj:
  assumes "PointInside (size_props tp) c" "PointInside (size_props tp) pos"
    and "pixelIndex tp c = pixelIndex tp pos"
  shows "c = pos"
proof -
  let ?w = "Size_w (size_props tp)"
  from assms(1,2) have b: "0 \<le> fst c" "fst c < ?w" "0 \<le> fst pos" "fst pos < ?w"
    by (simp_all add: PointInside_def)
  from assms(3) have e: "snd c * ?w + fst c = snd pos * ?w + fst pos"
    by (simp add: pixelIndex_def)
  then have "(snd c * ?w + fst c) mod ?w = (snd pos * ?w + fst pos) mod ?w" by simp
  with b have x: "fst c = fst pos" by simp
  with e have "snd c * ?w = snd pos * ?w" by simp
  with b have "snd c = snd pos" by simp
  with x show ?thesis by (simp add: prod_eq_iff)
qed

lemma QuerySearchMap_outside:
  "\<not> PointInside (size_props tp) c \<Longrightarrow> QuerySearchMap tc tp c = defaultSearchMap tc"
  by (simp add: QuerySearchMap_def QueryTileProp_def)

lemma QuerySearchMap_write:
  assumes lay: "layout_ok fl tc" and ins: "PointInside (size_props tp) pos"
  shows "QuerySearchMap tc
           (tp\<lparr>propPtr := (propPtr tp)(pixelIndex tp pos :=
                (propPtr tp (pixelIndex tp pos) AND NOT (searchMapMask tc)) OR push_bit (Rshift tc) (ucast v))\<rparr>) c
         = (if c = pos then v else QuerySearchMap tc tp c)"
proof (cases "c = pos")
  case True
  from lay have "searchMapShift tc \<le> 24" "searchMapMask tc = push_bit (searchMapShift tc) 255"
    "Rshift tc = searchMapShift tc" by (simp_all add: layout_ok_def)
  with True ins show ?thesis
    by (simp add: QuerySearchMap_def QueryTileProp_def pixelIndex_def field_roundtrip
        del: drop_bit_and drop_bit_or)
next
  case False
  show ?thesis
  proof (cases "PointInside (size_props tp) c")
    case True
    with False ins have "pixelIndex tp c \<noteq> pixelIndex tp pos"
      using pixelIndex_inj by blast
    with False True show ?thesis
      by (simp add: QuerySearchMap_def QueryTileProp_def pixelIndex_def)
  next
    case F: False
    with False show ?thesis
      by (simp add: QuerySearchMap_def QueryTileProp_def)
  qed
qed

lemma PlotCircle_0: "PlotCircle p 0 = [p, p, p, p, p, p, p, p]"
  by (cases p) (simp add: PlotCircle_def plotLoop.simps)

lemma PlotCircle_1: "PlotCircle (x, y) (Suc 0) =
  [(x + 1, y), (x - 1, y), (x, y + 1), (x, y + 1), (x + 1, y), (x - 1, y), (x, y - 1), (x, y - 1)]"
  by (simp add: PlotCircle_def plotLoop.simps)

section \<open>Out-of-bounds access to the store\<close>

text \<open>
  C3. For every point outside the bounds of the store and every field (search map, material,
  elevation, lighting), \<open>QueryTileProp\<close> returns the default of that field (the function is
  total: no error is raised), and \<open>SetTileProp\<close> at such a point, for any field and value,
  returns the store unchanged.
\<close>

theorem out_of_bounds_default_and_noop:
  assumes "\<not> PointInside (size_props tp) p"
  shows "QueryTileProp tc tp p SEARCH_MAP = defaultSearchMap tc
       \<and> QueryTileProp tc tp p MATERIAL = defaultMaterial tc
       \<and> QueryTileProp tc tp p ELEVATION = defaultElevation tc
       \<and> QueryTileProp tc tp p LIGHTING = defaultLighting tc
       \<and> SetTileProp tc tp p prop val = tp"
  using assms by (simp add: QueryTileProp_def SetTileProp_def)

theorem out_of_bounds_default_and_noop_witness:
  "\<not> PointInside (size_props (uniformStore 4 4 1)) (5, 2)
   \<and> QueryTileProp layoutValues (uniformStore 4 4 1) (5, 2) SEARCH_MAP = 0
   \<and> QueryTileProp layoutValues (uniformStore 4 4 1) (5, 2) MATERIAL = 0
   \<and> QueryTileProp layoutValues (uniformStore 4 4 1) (5, 2) ELEVATION = 128
   \<and> QueryTileProp layoutValues (uniformStore 4 4 1) (5, 2) LIGHTING = 0
   \<and> SetTileProp layoutValues (uniformStore 4 4 1) (5, 2) SEARCH_MAP 9 = uniformStore 4 4 1"
proof -
  have h: "\<not> PointInside (size_props (uniformStore 4 4 1)) (5, 2)"
    by (simp add: PointInside_def uniformStore_def)
  from out_of_bounds_default_and_noop [OF h, of layoutValues SEARCH_MAP 9] h
  show ?thesis by (simp add: layoutValues_def)
qed

section \<open>The flag rules of the queries\<close>

lemma combineAccumulated_passable:
  "SIDEWALL fl AND PASSABLE fl = 0 \<Longrightarrow> ret AND (DOOR_IMPASSABLE fl OR ACTOR fl OR SIDEWALL fl) \<noteq> 0 \<Longrightarrow> combineAccumulated fl ret AND PASSABLE fl = 0"
  by (auto simp: combineAccumulated_def Let_def and_not_and_self)

lemma GetBlockedTile_passable:
  "SIDEWALL fl AND PASSABLE fl = 0 \<Longrightarrow> QuerySearchMap tc tp p AND (DOOR_IMPASSABLE fl OR ACTOR fl) \<noteq> 0 \<Longrightarrow> GetBlockedTile fl tc tp p AND PASSABLE fl = 0"
  by (auto simp: GetBlockedTile_def Let_def and_not_and_self or_and_nonzero)

lemma combineAccumulated_opaque:
  "DOOR_OPAQUE fl AND PASSABLE fl = 0 \<Longrightarrow> ret AND DOOR_OPAQUE fl \<noteq> 0 \<Longrightarrow> combineAccumulated fl ret = SIDEWALL fl"
  by (auto simp: combineAccumulated_def Let_def and_not_keep)


lemma GetBlockedTile_no_opaque: "SIDEWALL fl AND DOOR_OPAQUE fl = 0 \<Longrightarrow> GetBlockedTile fl tc tp p AND DOOR_OPAQUE fl = 0"
  by (auto simp: GetBlockedTile_def Let_def)

lemma GetBlockedTile_blocker_not_passable: 
  "SIDEWALL fl AND PASSABLE fl = 0 \<Longrightarrow> GetBlockedTile fl tc tp p AND (DOOR_IMPASSABLE fl OR ACTOR fl) \<noteq> 0 \<Longrightarrow> GetBlockedTile fl tc tp p AND PASSABLE fl = 0"
  by (auto simp: GetBlockedTile_def Let_def and_not_and_self split: if_splits)

lemma and_or_distrib_nonzero: "(v AND (a OR b) \<noteq> 0) = (v AND a \<noteq> 0 \<or> v AND b \<noteq> (0::'a::len word))"
  by (auto simp add: bit_eq_iff bit_simps)

lemma and_not_id: "v AND p = 0 \<Longrightarrow> v AND NOT p = (v::'a::len word)"
  by (auto simp add: bit_eq_iff bit_simps)

lemma combine_point:
  assumes ok: "flags_ok fl"
  shows "combineAccumulated fl (GetBlockedTile fl tc tp p) =
         (if GetBlockedTile fl tc tp p AND SIDEWALL fl \<noteq> 0 then GetBlockedTile fl tc tp p AND NOT (PASSABLE fl) else GetBlockedTile fl tc tp p)"
proof -
  let ?v = "GetBlockedTile fl tc tp p"
  from ok have sp: "SIDEWALL fl AND PASSABLE fl = 0" and sd: "SIDEWALL fl AND DOOR_OPAQUE fl = 0"
    and dp: "DOOR_OPAQUE fl AND PASSABLE fl = 0"
    by (simp_all add: flags_ok_def)
  have no: "?v AND DOOR_OPAQUE fl = 0" by (rule GetBlockedTile_no_opaque [OF sd])
  have no': "(?v AND NOT (PASSABLE fl)) AND DOOR_OPAQUE fl = 0"
    using no dp by (simp add: and_not_keep)
  show ?thesis
  proof (cases "?v AND SIDEWALL fl \<noteq> 0")
    case True
    then show ?thesis
      using no' by (simp add: combineAccumulated_def Let_def and_or_distrib_nonzero)
  next
    case False
    show ?thesis
    proof (cases "?v AND (DOOR_IMPASSABLE fl OR ACTOR fl) \<noteq> 0")
      case True
      then have "?v AND PASSABLE fl = 0" by (rule GetBlockedTile_blocker_not_passable [OF sp])
      then have "?v AND NOT (PASSABLE fl) = ?v" by (rule and_not_id)
      with False True no show ?thesis
        by (simp add: combineAccumulated_def Let_def and_or_distrib_nonzero)
    next
      case F2: False
      with False no show ?thesis
        by (simp add: combineAccumulated_def Let_def and_or_distrib_nonzero)
    qed
  qed
qed

lemma blockedRadius_1: "blockedRadius 1 = 0"
  by (simp add: blockedRadius_def Clamp_def MAX_CIRCLESIZE_def)

lemma radius_size_1:
  assumes ok: "flags_ok fl"
  shows "GetBlockedInRadiusTile fl tc plot tp p 1 stop =
     Inr (if GetBlockedTile fl tc tp p AND SIDEWALL fl \<noteq> 0 then GetBlockedTile fl tc tp p AND NOT (PASSABLE fl) else GetBlockedTile fl tc tp p)"
proof -
  from ok have z: "IMPASSABLE fl = 0" by (simp add: flags_ok_def)
  show ?thesis
  proof (cases "stop \<and> GetBlockedTile fl tc tp p = IMPASSABLE fl")
    case True
    then show ?thesis
      by (cases p) (simp add: GetBlockedInRadiusTile_def radiusPoints_def blockedRadius_1 z)
  next
    case False
    then show ?thesis
      using combine_point [OF ok, of tc tp p]
      by (cases p) (auto simp add: GetBlockedInRadiusTile_def radiusPoints_def blockedRadius_1 z)
  qed
qed


lemma and_not_id_iff: "(v AND NOT p = v) = (v AND p = (0::'a::len word))"
  by (auto simp add: bit_eq_iff bit_simps)

text \<open>
  C1 (as amended). After the accumulation, the radius query and the line query clear the
  passable flag whenever the accumulated flags contain a door-impassable, actor or side-wall
  flag. The point query clears it whenever the flags of the cell contain a door-impassable or
  actor flag; it does not test the side-wall flag.
\<close>

theorem passable_cleared_after_accumulation:
  assumes "flags_ok fl"
  shows "(QuerySearchMap tc tp p AND (DOOR_IMPASSABLE fl OR ACTOR fl) \<noteq> 0
            \<longrightarrow> GetBlockedTile fl tc tp p AND PASSABLE fl = 0)
       \<and> (scanSpans fl tc tp stop (radiusPoints plot p sz) (IMPASSABLE fl) = Completed ret
            \<and> ret AND (DOOR_IMPASSABLE fl OR ACTOR fl OR SIDEWALL fl) \<noteq> 0
            \<longrightarrow> (\<exists>v. GetBlockedInRadiusTile fl tc plot tp p sz stop = Inr v \<and> v AND PASSABLE fl = 0))
       \<and> (lineLoop fl tc plot toSearchmap stopDefault advance tp (toSearchmap s) d stop caller fuel s
              (IMPASSABLE fl) = Some (Completed ret')
            \<and> ret' AND (DOOR_IMPASSABLE fl OR ACTOR fl OR SIDEWALL fl) \<noteq> 0
            \<longrightarrow> (\<exists>v. GetBlockedInLine fl tc plot toSearchmap stopDefault advance fuel tp s d stop caller
                       = Some (Inr v) \<and> v AND PASSABLE fl = 0))"
proof -
  from assms have sp: "SIDEWALL fl AND PASSABLE fl = 0" by (simp add: flags_ok_def)
  show ?thesis
    by (simp add: GetBlockedTile_passable [OF sp] combineAccumulated_passable [OF sp]
        GetBlockedInRadiusTile_def GetBlockedInLine_def)
qed

lemma flagValues_simps:
  "IMPASSABLE flagValues = 0" "UNMARKED flagValues = 0" "PASSABLE flagValues = 1" "TRAVEL flagValues = 2"
  "NO_SEE flagValues = 4" "SIDEWALL flagValues = 8" "DOOR_OPAQUE flagValues = 16"
  "DOOR_IMPASSABLE flagValues = 32" "PC flagValues = 64" "NPC flagValues = 128"
  "ACTOR flagValues = 192" "NOTACTOR flagValues = 63"
  by (simp_all add: flagValues_def)

lemma inside_1_1: "PointInside \<lparr>Size_w = 4, Size_h = 4\<rparr> (1, 1)"
  by (simp add: PointInside_def)

lemma GetBlockedTile_at_33: "GetBlockedTile flagValues layoutValues (uniformStore 4 4 33) (1, 1) = 32"
  by (simp add: GetBlockedTile_def Let_def QuerySearchMap_uniformStore inside_1_1 flagValues_simps)

lemma QuerySearchMap_SetTileProp:
  assumes lay: "layout_ok fl tc"
  shows "QuerySearchMap tc (SetTileProp tc tp pos SEARCH_MAP v) c
         = (if c = pos \<and> PointInside (size_props tp) pos then v else QuerySearchMap tc tp c)"
proof (cases "PointInside (size_props tp) pos")
  case True
  from lay have r: "Rshift tc = searchMapShift tc" by (simp add: layout_ok_def)
  have "SetTileProp tc tp pos SEARCH_MAP v =
        tp\<lparr>propPtr := (propPtr tp)(pixelIndex tp pos :=
                (propPtr tp (pixelIndex tp pos) AND NOT (searchMapMask tc)) OR push_bit (Rshift tc) (ucast v))\<rparr>"
    using True by (simp add: SetTileProp_def Let_def r)
  then show ?thesis using True by (simp add: QuerySearchMap_write [OF lay True])
next
  case False
  then show ?thesis by (simp add: SetTileProp_def)
qed

lemma QuerySearchMap_occupiedStore:
  "QuerySearchMap layoutValues occupiedStore c
     = (if c = (3, 2) then 128 else QuerySearchMap layoutValues (uniformStore 6 6 1) c)"
  unfolding occupiedStore_def QuerySearchMap_SetTileProp [OF layout_ok_layoutValues]
  by (simp add: uniformStore_def PointInside_def)

lemma GetBlockedTile_occupiedStore:
  "0 \<le> x \<Longrightarrow> x < 6 \<Longrightarrow> 0 \<le> y \<Longrightarrow> y < 6 \<Longrightarrow>
   GetBlockedTile flagValues layoutValues occupiedStore (x, y) = (if (x, y) = (3, 2) then 128 else 1)"
  by (simp add: GetBlockedTile_def Let_def QuerySearchMap_occupiedStore QuerySearchMap_uniformStore
      PointInside_def flagValues_simps)

lemma blockedRadius_3: "blockedRadius 3 = 1"
  by (simp add: blockedRadius_def Clamp_def MAX_CIRCLESIZE_def)

lemma upto_1_3: "[1..3] = [1, 2, 3::int]"
  by (simp add: upto.simps)

lemma scanSpans_occupiedStore:
  "scanSpans flagValues layoutValues occupiedStore False (radiusPoints PlotCircle (2, 2) 3)
     (IMPASSABLE flagValues) = Completed 129"
  by (simp add: radiusPoints_def blockedRadius_3 PlotCircle_1 upto_1_3 GetBlockedTile_occupiedStore
      flagValues_simps)

lemma lineLoop_occupiedStore:
  "lineLoop flagValues layoutValues PlotCircle id True stepRight occupiedStore (id (0, 2)) (3, 2) False None
     (Suc (Suc (Suc (Suc 0)))) (0, 2) (IMPASSABLE flagValues) = Some (Completed 129)"
  by (simp add: stepRight_def GetBlockedTile_occupiedStore flagValues_simps)

theorem passable_cleared_after_accumulation_witness:
  "flags_ok flagValues
   \<and> QuerySearchMap layoutValues occupiedStore (3, 2) AND (DOOR_IMPASSABLE flagValues OR ACTOR flagValues) \<noteq> 0
   \<and> GetBlockedTile flagValues layoutValues occupiedStore (3, 2) AND PASSABLE flagValues = 0
   \<and> scanSpans flagValues layoutValues occupiedStore False (radiusPoints PlotCircle (2, 2) 3)
        (IMPASSABLE flagValues) = Completed 129
   \<and> 129 AND (DOOR_IMPASSABLE flagValues OR ACTOR flagValues OR SIDEWALL flagValues) \<noteq> 0
   \<and> (\<exists>v. GetBlockedInRadiusTile flagValues layoutValues PlotCircle occupiedStore (2, 2) 3 False = Inr v
          \<and> v AND PASSABLE flagValues = 0)
   \<and> lineLoop flagValues layoutValues PlotCircle id True stepRight occupiedStore (id (0, 2)) (3, 2) False None
        (Suc (Suc (Suc (Suc 0)))) (0, 2) (IMPASSABLE flagValues) = Some (Completed 129)
   \<and> (\<exists>v. GetBlockedInLine flagValues layoutValues PlotCircle id True stepRight (Suc (Suc (Suc (Suc 0))))
            occupiedStore (0, 2) (3, 2) False None = Some (Inr v) \<and> v AND PASSABLE flagValues = 0)"
proof -
  have q: "QuerySearchMap layoutValues occupiedStore (3, 2) AND (DOOR_IMPASSABLE flagValues OR ACTOR flagValues) \<noteq> 0"
    by (simp add: QuerySearchMap_occupiedStore flagValues_simps)
  have n: "(129 :: 8 word) AND (DOOR_IMPASSABLE flagValues OR ACTOR flagValues OR SIDEWALL flagValues) \<noteq> 0"
    by (simp add: flagValues_simps)
  from passable_cleared_after_accumulation [OF flags_ok_flagValues, where tc = layoutValues
      and tp = occupiedStore and p = "(3, 2)"]
  have a: "GetBlockedTile flagValues layoutValues occupiedStore (3, 2) AND PASSABLE flagValues = 0"
    using q by blast
  from passable_cleared_after_accumulation [OF flags_ok_flagValues, where tc = layoutValues
      and tp = occupiedStore and p = "(2, 2)" and stop = False and plot = PlotCircle and sz = 3
      and ret = 129 and toSearchmap = id and stopDefault = True and advance = stepRight and s = "(0, 2)"
      and d = "(3, 2)" and caller = None and fuel = "Suc (Suc (Suc (Suc 0)))" and ret' = 129]
    n scanSpans_occupiedStore lineLoop_occupiedStore
  have b: "\<exists>v. GetBlockedInRadiusTile flagValues layoutValues PlotCircle occupiedStore (2, 2) 3 False = Inr v
          \<and> v AND PASSABLE flagValues = 0"
    and c: "\<exists>v. GetBlockedInLine flagValues layoutValues PlotCircle id True stepRight (Suc (Suc (Suc (Suc 0))))
            occupiedStore (0, 2) (3, 2) False None = Some (Inr v) \<and> v AND PASSABLE flagValues = 0"
    by blast+
  from flags_ok_flagValues q a scanSpans_occupiedStore n b lineLoop_occupiedStore c
  show ?thesis by blast
qed

theorem point_query_keeps_passable_beside_sidewall:
  "QuerySearchMap layoutValues (uniformStore 4 4 9) (1, 1)
      AND (DOOR_IMPASSABLE flagValues OR ACTOR flagValues OR SIDEWALL flagValues) \<noteq> 0
   \<and> GetBlockedTile flagValues layoutValues (uniformStore 4 4 9) (1, 1) AND PASSABLE flagValues \<noteq> 0"
  by (simp add: GetBlockedTile_def Let_def QuerySearchMap_uniformStore inside_1_1 flagValues_simps)

lemma and_not_id_iff': "(v = v AND NOT p) = (v AND p = (0::'a::len word))"
  by (auto simp add: bit_eq_iff bit_simps)

text \<open>
  C2 (as amended). The point form \<open>GetBlocked(p, -1)\<close> returns the point query of the cell;
  the form with size 1 scans the single point \<open>p\<close> and returns the point query with the
  passable flag cleared when the side-wall flag is set. The two agree exactly when the point
  query does not carry both the side-wall and the passable flag.
\<close>

theorem point_query_and_unit_radius:
  assumes "flags_ok fl"
  shows "GetBlocked_size fl tc plot toSearchmap stopDefault tp p (- 1) = Inr (GetBlocked fl tc toSearchmap tp p)
       \<and> GetBlocked_size fl tc plot toSearchmap stopDefault tp p 1 =
           Inr (if GetBlocked fl tc toSearchmap tp p AND SIDEWALL fl \<noteq> 0
                then GetBlocked fl tc toSearchmap tp p AND NOT (PASSABLE fl)
                else GetBlocked fl tc toSearchmap tp p)
       \<and> (GetBlocked_size fl tc plot toSearchmap stopDefault tp p (- 1)
            = GetBlocked_size fl tc plot toSearchmap stopDefault tp p 1
          \<longleftrightarrow> GetBlocked fl tc toSearchmap tp p AND SIDEWALL fl = 0
              \<or> GetBlocked fl tc toSearchmap tp p AND PASSABLE fl = 0)"
proof -
  have a: "GetBlocked_size fl tc plot toSearchmap stopDefault tp p (- 1) = Inr (GetBlocked fl tc toSearchmap tp p)"
    by (simp add: GetBlocked_size_def)
  have b: "GetBlocked_size fl tc plot toSearchmap stopDefault tp p 1 =
           Inr (if GetBlocked fl tc toSearchmap tp p AND SIDEWALL fl \<noteq> 0
                then GetBlocked fl tc toSearchmap tp p AND NOT (PASSABLE fl)
                else GetBlocked fl tc toSearchmap tp p)"
    by (simp add: GetBlocked_size_def GetBlockedInRadius_def GetBlocked_def radius_size_1 [OF assms])
  show ?thesis unfolding a b by (auto simp add: and_not_id_iff and_not_id_iff')
qed

theorem point_query_and_unit_radius_witness:
  "flags_ok flagValues
   \<and> GetBlocked_size flagValues layoutValues noPlot id True (uniformStore 4 4 33) (1, 1) (- 1) = Inr 32
   \<and> GetBlocked_size flagValues layoutValues noPlot id True (uniformStore 4 4 33) (1, 1) 1 = Inr 32"
  using point_query_and_unit_radius [OF flags_ok_flagValues, of layoutValues noPlot id True "uniformStore 4 4 33" "(1, 1)"]
  by (simp add: GetBlocked_def GetBlockedTile_at_33 flagValues_simps flags_ok_flagValues)

lemma GetBlockedTile_at_9: "GetBlockedTile flagValues layoutValues (uniformStore 4 4 9) (1, 1) = 9"
  by (simp add: GetBlockedTile_def Let_def QuerySearchMap_uniformStore inside_1_1 flagValues_simps)

lemma GetBlockedInRadiusTile_at_9:
  "GetBlockedInRadiusTile flagValues layoutValues noPlot (uniformStore 4 4 9) (1, 1) 1 True = Inr 8"
  by (simp add: GetBlockedInRadiusTile_def radiusPoints_def blockedRadius_1 GetBlockedTile_at_9
      combineAccumulated_def flagValues_simps)

theorem point_query_differs_from_unit_radius:
  "GetBlocked_size flagValues layoutValues noPlot id True (uniformStore 4 4 9) (1, 1) (- 1) = Inr 9
   \<and> GetBlocked_size flagValues layoutValues noPlot id True (uniformStore 4 4 9) (1, 1) 1 = Inr 8"
  by (simp add: GetBlocked_size_def GetBlocked_def GetBlockedInRadius_def GetBlockedTile_at_9
      GetBlockedInRadiusTile_at_9)


















lemma SetTileProp_size [simp]: "size_props (SetTileProp tc tp pos field v) = size_props tp"
  by (cases field) (simp_all add: SetTileProp_def Let_def)











section \<open>The radii of the painted and of the scanned disc\<close>

lemma paintRadius_unat: "unat (paintRadius sz) = nat (Clamp (int (unat sz) - 1) 0 7)"
proof -
  consider "sz = 0" | "1 \<le> sz \<and> sz \<le> 8" | "8 < sz"
    by (metis word_less_1 not_le_imp_less)
  then show ?thesis
  proof cases
    case 1
    then show ?thesis by (simp add: paintRadius_def Clamp_def MAX_CIRCLESIZE_def)
  next
    case 2
    then have c: "Clamp sz 1 MAX_CIRCLESIZE = sz"
      by (simp add: Clamp_def MAX_CIRCLESIZE_def max_def min_def)
    from 2 have n: "1 \<le> unat sz" "unat sz \<le> 8" by (simp_all add: word_le_nat_alt)
    have "unat (sz - 1) = unat sz - 1" using 2 by (simp add: unat_sub)
    then have l: "unat (paintRadius sz) = unat sz - 1" by (simp add: paintRadius_def c)
    have "Clamp (int (unat sz) - 1) 0 7 = int (unat sz) - 1"
      unfolding Clamp_def using n by linarith
    with l show ?thesis using n by linarith
  next
    case 3
    then have c: "Clamp sz 1 MAX_CIRCLESIZE = 8"
      by (auto simp add: Clamp_def MAX_CIRCLESIZE_def max_def min_def)
    from 3 have n: "8 < unat sz" by (simp add: word_less_nat_alt)
    have l: "unat (paintRadius sz) = 7" by (simp add: paintRadius_def c)
    have "Clamp (int (unat sz) - 1) 0 7 = 7"
      unfolding Clamp_def using n by linarith
    with l show ?thesis by simp
  qed
qed

lemma blockedRadius_unat: "unat (blockedRadius sz) = nat (Clamp (int (unat sz) - 2) 0 6)"
proof -
  consider "sz < 2" | "2 \<le> sz \<and> sz \<le> 8" | "8 < sz"
    by (metis not_le_imp_less)
  then show ?thesis
  proof cases
    case 1
    then have n: "unat sz < 2" by (simp add: word_less_nat_alt)
    then have "sz \<le> 8" by (simp add: word_le_nat_alt)
    with 1 have c: "Clamp sz 2 MAX_CIRCLESIZE = 2"
      by (auto simp add: Clamp_def MAX_CIRCLESIZE_def max_def min_def)
    have l: "unat (blockedRadius sz) = 0" by (simp add: blockedRadius_def c)
    have "Clamp (int (unat sz) - 2) 0 6 = 0"
      unfolding Clamp_def using n by linarith
    with l show ?thesis by simp
  next
    case 2
    then have c: "Clamp sz 2 MAX_CIRCLESIZE = sz"
      by (simp add: Clamp_def MAX_CIRCLESIZE_def max_def min_def)
    from 2 have n: "2 \<le> unat sz" "unat sz \<le> 8" by (simp_all add: word_le_nat_alt)
    have "unat (sz - 2) = unat sz - 2" using 2 by (simp add: unat_sub)
    then have l: "unat (blockedRadius sz) = unat sz - 2" by (simp add: blockedRadius_def c)
    have "Clamp (int (unat sz) - 2) 0 6 = int (unat sz) - 2"
      unfolding Clamp_def using n by linarith
    with l show ?thesis using n by linarith
  next
    case 3
    then have c: "Clamp sz 2 MAX_CIRCLESIZE = 8"
      by (auto simp add: Clamp_def MAX_CIRCLESIZE_def max_def min_def)
    from 3 have n: "8 < unat sz" by (simp add: word_less_nat_alt)
    have l: "unat (blockedRadius sz) = 6" by (simp add: blockedRadius_def c)
    have "Clamp (int (unat sz) - 2) 0 6 = 6"
      unfolding Clamp_def using n by linarith
    with l show ?thesis by simp
  qed
qed

text \<open>
  C9 (as amended). For every requested size, footprint painting stamps the disc that
  \<open>PlotCircle\<close> returns for the radius \<open>clamp(size, 1, 8) - 1 = clamp(size - 1, 0, 7)\<close>, and
  the blocking radius query scans the disc of radius \<open>clamp(size, 2, 8) - 2 = clamp(size - 2, 0, 6)\<close>
  (the single centre point when that radius is 0). The upper bounds of the two radii
  differ: 7 for painting, 6 for blocking.
\<close>

theorem painting_and_blocking_radii:
  "PaintSearchMap_disc fl tc plot tp p sz val = paintSpans fl tc val (plot p (unat (paintRadius sz))) tp
   \<and> unat (paintRadius sz) = nat (Clamp (int (unat sz) - 1) 0 7)
   \<and> GetBlockedInRadiusTile fl tc plot tp p sz stop =
       (case scanSpans fl tc tp stop
               (if blockedRadius sz = 0 then [p, p] else plot p (unat (blockedRadius sz))) (IMPASSABLE fl) of
          Failed e \<Rightarrow> Inl e
        | EarlyReturn \<Rightarrow> Inr (IMPASSABLE fl)
        | Completed ret \<Rightarrow> Inr (combineAccumulated fl ret))
   \<and> unat (blockedRadius sz) = nat (Clamp (int (unat sz) - 2) 0 6)"
  by (simp add: PaintSearchMap_disc_def GetBlockedInRadiusTile_def radiusPoints_def Let_def
      paintRadius_unat blockedRadius_unat)

theorem radii_have_no_common_bound:
  "int (unat (paintRadius 9)) \<noteq> Clamp (int (unat (9 :: 16 word)) - 1) 0 (int (unat MAX_CIRCLESIZE))
   \<and> int (unat (blockedRadius 9)) \<noteq> Clamp (int (unat (9 :: 16 word)) - 2) 0 (int (unat MAX_CIRCLESIZE))
   \<and> unat (paintRadius 100) = 7 \<and> unat (blockedRadius 100) = 6"
  by (simp add: paintRadius_def blockedRadius_def Clamp_def MAX_CIRCLESIZE_def)

section \<open>What painting a footprint does to the search map\<close>

lemma PaintIfPassable_size [simp]: "size_props (PaintIfPassable fl tc val tp pos) = size_props tp"
  by (simp add: PaintIfPassable_def Let_def)

lemma QuerySearchMap_PaintIfPassable:
  assumes lay: "layout_ok fl tc"
  shows "QuerySearchMap tc (PaintIfPassable fl tc val tp pos) c
         = (if c = pos then paintedValue fl val (QuerySearchMap tc tp c) else QuerySearchMap tc tp c)"
proof (cases "QuerySearchMap tc tp pos \<noteq> IMPASSABLE fl")
  case True
  from lay have d: "defaultSearchMap tc = IMPASSABLE fl" by (simp add: layout_ok_def)
  with True have ins: "PointInside (size_props tp) pos"
    using QuerySearchMap_outside by metis
  from True show ?thesis
    by (simp add: PaintIfPassable_def Let_def QuerySearchMap_write [OF lay ins] paintedValue_def)
next
  case False
  then show ?thesis by (simp add: PaintIfPassable_def Let_def paintedValue_def)
qed

lemma paintedValue_idem: "paintedValue fl val (paintedValue fl val v) = paintedValue fl val v"
proof -
  have "(((v AND NOTACTOR fl) OR val) AND NOTACTOR fl) OR val = (v AND NOTACTOR fl) OR val"
    by (auto simp add: bit_eq_iff bit_simps)
  then show ?thesis by (simp add: paintedValue_def)
qed

lemma paintRow_size [simp]: "size_props (paintRow fl tc val y xs tp) = size_props tp"
  by (induction xs arbitrary: tp) (simp_all add: paintRow_def)

lemma QuerySearchMap_paintRow:
  assumes lay: "layout_ok fl tc"
  shows "QuerySearchMap tc (paintRow fl tc val y xs tp) c
         = (if c \<in> (\<lambda>x. (x, y)) ` set xs then paintedValue fl val (QuerySearchMap tc tp c)
            else QuerySearchMap tc tp c)"
proof (induction xs arbitrary: tp)
  case Nil
  show ?case by (simp add: paintRow_def)
next
  case (Cons x xs)
  have step: "paintRow fl tc val y (x # xs) tp = paintRow fl tc val y xs (PaintIfPassable fl tc val tp (x, y))"
    by (simp add: paintRow_def)
  show ?case unfolding step Cons.IH
    by (auto simp add: QuerySearchMap_PaintIfPassable [OF lay] paintedValue_idem)
qed

lemma paintSpans_ok:
  assumes lay: "layout_ok fl tc"
  shows "spansOk pts \<Longrightarrow>
     \<exists>tp'. paintSpans fl tc val pts tp = Inr tp' \<and> size_props tp' = size_props tp
       \<and> (\<forall>c. QuerySearchMap tc tp' c
                = (if c \<in> spanCells pts then paintedValue fl val (QuerySearchMap tc tp c)
                   else QuerySearchMap tc tp c))"
proof (induction pts arbitrary: tp rule: spansOk.induct)
  case 1
  show ?case by simp
next
  case (2 p1)
  then show ?case by simp
next
  case (3 p1 p2 ps)
  let ?tp1 = "paintRow fl tc val (snd p1) [fst p2..fst p1] tp"
  from "3.prems" have ok: "snd p1 = snd p2" "fst p2 \<le> fst p1" "spansOk ps" by simp_all
  from "3.IH" [OF ok(3), of ?tp1] obtain tp' where
    r: "paintSpans fl tc val ps ?tp1 = Inr tp'" and s: "size_props tp' = size_props ?tp1"
    and q: "\<forall>c. QuerySearchMap tc tp' c
                = (if c \<in> spanCells ps then paintedValue fl val (QuerySearchMap tc ?tp1 c)
                   else QuerySearchMap tc ?tp1 c)"
    by blast
  have "paintSpans fl tc val (p1 # p2 # ps) tp = Inr tp'"
    using ok r by simp
  moreover have "size_props tp' = size_props tp" using s by simp
  moreover have "\<forall>c. QuerySearchMap tc tp' c
                = (if c \<in> spanCells (p1 # p2 # ps) then paintedValue fl val (QuerySearchMap tc tp c)
                   else QuerySearchMap tc tp c)"
    using q by (auto simp add: QuerySearchMap_paintRow [OF lay] paintedValue_idem)
  ultimately show ?case by blast
qed

lemma BlockSearchMapFor_ok:
  assumes lay: "layout_ok fl tc" and ok: "spansOk (footprintPoints plot actor)"
  shows "\<exists>tp'. BlockSearchMapFor fl tc plot tp actor = Inr tp' \<and> size_props tp' = size_props tp
       \<and> (\<forall>c. QuerySearchMap tc tp' c
                = (if c \<in> footprint plot actor
                   then paintedValue fl (if IsPC actor then PC fl else NPC fl) (QuerySearchMap tc tp c)
                   else QuerySearchMap tc tp c))"
  using paintSpans_ok [OF lay, of "footprintPoints plot actor"] ok
  by (simp add: BlockSearchMapFor_def PaintSearchMap_disc_def footprint_def footprintPoints_def)

lemma restoreNeighbours_ok:
  assumes lay: "layout_ok fl tc"
  shows "\<forall>n \<in> set ns. BlocksSearchMap n \<longrightarrow> spansOk (footprintPoints plot n) \<Longrightarrow>
     \<exists>tp'. restoreNeighbours fl tc plot ns tp = Inr tp'
       \<and> (\<forall>c. (\<forall>n \<in> set ns. BlocksSearchMap n \<longrightarrow> c \<notin> footprint plot n)
              \<longrightarrow> QuerySearchMap tc tp' c = QuerySearchMap tc tp c)"
proof (induction ns arbitrary: tp)
  case Nil
  show ?case by simp
next
  case (Cons n ns)
  show ?case
  proof (cases "BlocksSearchMap n")
    case True
    with Cons.prems have "spansOk (footprintPoints plot n)" by simp
    from BlockSearchMapFor_ok [OF lay this, of tp] obtain tp1 where
      b: "BlockSearchMapFor fl tc plot tp n = Inr tp1"
      and q: "\<forall>c. QuerySearchMap tc tp1 c
                = (if c \<in> footprint plot n
                   then paintedValue fl (if IsPC n then PC fl else NPC fl) (QuerySearchMap tc tp c)
                   else QuerySearchMap tc tp c)"
      by blast
    from Cons.prems have "\<forall>n \<in> set ns. BlocksSearchMap n \<longrightarrow> spansOk (footprintPoints plot n)" by simp
    from Cons.IH [OF this, of tp1] obtain tp' where
      r: "restoreNeighbours fl tc plot ns tp1 = Inr tp'"
      and q': "\<forall>c. (\<forall>n \<in> set ns. BlocksSearchMap n \<longrightarrow> c \<notin> footprint plot n)
              \<longrightarrow> QuerySearchMap tc tp' c = QuerySearchMap tc tp1 c"
      by blast
    have "restoreNeighbours fl tc plot (n # ns) tp = Inr tp'" using True b r by simp
    moreover have "\<forall>c. (\<forall>m \<in> set (n # ns). BlocksSearchMap m \<longrightarrow> c \<notin> footprint plot m)
              \<longrightarrow> QuerySearchMap tc tp' c = QuerySearchMap tc tp c"
      using True q q' by simp
    ultimately show ?thesis by blast
  next
    case False
    from Cons.prems have "\<forall>n \<in> set ns. BlocksSearchMap n \<longrightarrow> spansOk (footprintPoints plot n)" by simp
    from Cons.IH [OF this, of tp] False show ?thesis by simp
  qed
qed

lemma paint_then_unmark:
  assumes "flags_ok fl"
  shows "paintedValue fl (UNMARKED fl) (paintedValue fl (if pc then PC fl else NPC fl) v) = v AND NOTACTOR fl"
proof -
  from assms have z: "IMPASSABLE fl = 0" "UNMARKED fl = 0" and nz: "PC fl \<noteq> 0" "NPC fl \<noteq> 0"
    and a: "ACTOR fl = PC fl OR NPC fl" and na: "NOTACTOR fl = NOT (ACTOR fl)"
    by (simp_all add: flags_ok_def)
  have pc: "((v AND NOTACTOR fl) OR PC fl) AND NOTACTOR fl = v AND NOTACTOR fl"
    unfolding na a by (auto simp add: bit_eq_iff bit_simps)
  have npc: "((v AND NOTACTOR fl) OR NPC fl) AND NOTACTOR fl = v AND NOTACTOR fl"
    unfolding na a by (auto simp add: bit_eq_iff bit_simps)
  have nz1: "(v AND NOTACTOR fl) OR PC fl \<noteq> 0" using nz by (auto simp add: bit_eq_iff bit_simps)
  have nz2: "(v AND NOTACTOR fl) OR NPC fl \<noteq> 0" using nz by (auto simp add: bit_eq_iff bit_simps)
  show ?thesis
    by (simp add: paintedValue_def z pc npc nz1 nz2)
qed

lemma block_then_clear_cell:
  assumes fok: "flags_ok fl" and lay: "layout_ok fl tc"
    and ok: "spansOk (footprintPoints plot actor)"
    and oks: "\<forall>n \<in> set nearActors. BlocksSearchMap n \<longrightarrow> spansOk (footprintPoints plot n)"
    and c: "c \<in> footprint plot actor"
    and others: "\<forall>n \<in> set nearActors. BlocksSearchMap n \<longrightarrow> c \<notin> footprint plot n"
  shows "searchMapAfter tc (blockThenClear fl tc plot nearActors tp actor) c
         = Inr (QuerySearchMap tc tp c AND NOTACTOR fl)"
proof -
  from BlockSearchMapFor_ok [OF lay ok, of tp] obtain tp1 where
    b: "BlockSearchMapFor fl tc plot tp actor = Inr tp1"
    and q1: "\<forall>c. QuerySearchMap tc tp1 c
                = (if c \<in> footprint plot actor
                   then paintedValue fl (if IsPC actor then PC fl else NPC fl) (QuerySearchMap tc tp c)
                   else QuerySearchMap tc tp c)"
    by blast
  from paintSpans_ok [OF lay, of "footprintPoints plot actor" "UNMARKED fl" tp1] ok obtain tp2 where
    u: "PaintSearchMap_disc fl tc plot tp1 (SMPos actor) (circleSize actor) (UNMARKED fl) = Inr tp2"
    and q2: "\<forall>c. QuerySearchMap tc tp2 c
                = (if c \<in> footprint plot actor then paintedValue fl (UNMARKED fl) (QuerySearchMap tc tp1 c)
                   else QuerySearchMap tc tp1 c)"
    by (auto simp add: PaintSearchMap_disc_def footprint_def footprintPoints_def)
  from restoreNeighbours_ok [OF lay oks, of tp2] obtain tp3 where
    r: "restoreNeighbours fl tc plot nearActors tp2 = Inr tp3"
    and q3: "\<forall>c. (\<forall>n \<in> set nearActors. BlocksSearchMap n \<longrightarrow> c \<notin> footprint plot n)
              \<longrightarrow> QuerySearchMap tc tp3 c = QuerySearchMap tc tp2 c"
    by blast
  have "blockThenClear fl tc plot nearActors tp actor = Inr tp3"
    using b u r by (simp add: blockThenClear_def ClearSearchMapFor_def)
  moreover have "QuerySearchMap tc tp3 c = QuerySearchMap tc tp c AND NOTACTOR fl"
  proof -
    from spec [OF q3, of c] others have "QuerySearchMap tc tp3 c = QuerySearchMap tc tp2 c" by blast
    also from spec [OF q2, of c] c have "\<dots> = paintedValue fl (UNMARKED fl) (QuerySearchMap tc tp1 c)" by simp
    also from spec [OF q1, of c] c have "\<dots> = paintedValue fl (UNMARKED fl)
        (paintedValue fl (if IsPC actor then PC fl else NPC fl) (QuerySearchMap tc tp c))" by simp
    also have "\<dots> = QuerySearchMap tc tp c AND NOTACTOR fl" by (rule paint_then_unmark [OF fok])
    finally show ?thesis .
  qed
  ultimately show ?thesis by (simp add: searchMapAfter_def)
qed

lemma and_notactor_id:
  assumes "flags_ok fl" and "v AND ACTOR fl = 0"
  shows "v AND NOTACTOR fl = v"
proof -
  from assms(1) have "NOTACTOR fl = NOT (ACTOR fl)" by (simp add: flags_ok_def)
  with assms(2) show ?thesis by (simp add: and_not_id)
qed

text \<open>
  C5 (as amended). For every actor, \<open>BlockSearchMapFor\<close> followed by \<open>ClearSearchMapFor\<close>
  leaves in every cell of the actor's footprint the search-map value that the cell had before
  the paint with the actor flags \<open>PC\<close> and \<open>NPC\<close> cleared, provided that no neighbour that
  \<open>ClearSearchMapFor\<close> stamps again covers that cell; this is the value before the paint
  whenever the cell carried no actor flag then. (\<open>PlotCircle\<close> is assumed to return row
  spans that pass the assertions of the painter.)
\<close>

theorem block_then_clear_restores:
  assumes "flags_ok fl" and "layout_ok fl tc"
    and "spansOk (footprintPoints plot actor)"
    and "\<forall>n \<in> set nearActors. BlocksSearchMap n \<longrightarrow> spansOk (footprintPoints plot n)"
    and "c \<in> footprint plot actor"
    and "\<forall>n \<in> set nearActors. BlocksSearchMap n \<longrightarrow> c \<notin> footprint plot n"
  shows "searchMapAfter tc (blockThenClear fl tc plot nearActors tp actor) c
           = Inr (QuerySearchMap tc tp c AND NOTACTOR fl)
       \<and> (QuerySearchMap tc tp c AND ACTOR fl = 0
            \<longrightarrow> searchMapAfter tc (blockThenClear fl tc plot nearActors tp actor) c
                  = Inr (QuerySearchMap tc tp c))"
  using block_then_clear_cell [OF assms, of tp] and_notactor_id [OF assms(1), of "QuerySearchMap tc tp c"]
  by simp

lemma plotLoop_spansOk: "0 \<le> y \<Longrightarrow> spansOk (plotLoop origin x y xc yc re)"
proof (induction origin x y xc yc re rule: plotLoop.induct)
  case (1 origin x y xc yc re)
  show ?case
  proof (cases "y \<le> x")
    case True
    with "1.prems" "1.IH" show ?thesis
      by (subst plotLoop.simps) auto
  next
    case False
    then show ?thesis by (subst plotLoop.simps) simp
  qed
qed

lemma PlotCircle_spansOk: "spansOk (PlotCircle origin r)"
  by (simp add: PlotCircle_def plotLoop_spansOk)

lemma paintRadius_1: "paintRadius 1 = 0"
  by (simp add: paintRadius_def Clamp_def MAX_CIRCLESIZE_def)

lemma paintRadius_2: "paintRadius 2 = 1"
  by (simp add: paintRadius_def Clamp_def MAX_CIRCLESIZE_def)

lemma footprint_size_1: "footprint PlotCircle (actorAt p 1 pc) = {p}"
  by (cases p) (simp add: footprint_def footprintPoints_def actorAt_def paintRadius_1 PlotCircle_0)

lemma footprint_size_2:
  "footprint PlotCircle (actorAt (x, y) 2 pc) = {(x - 1, y), (x, y), (x + 1, y), (x, y + 1), (x, y - 1)}"
  by (auto simp add: footprint_def footprintPoints_def actorAt_def paintRadius_2 PlotCircle_1)

lemma footprintPoints_spansOk: "spansOk (footprintPoints PlotCircle actor)"
  by (simp add: footprintPoints_def PlotCircle_spansOk)

theorem block_then_clear_restores_witness:
  "flags_ok flagValues \<and> layout_ok flagValues layoutValues
   \<and> spansOk (footprintPoints PlotCircle (actorAt (2, 2) 2 True))
   \<and> BlocksSearchMap (actorAt (5, 5) 1 False)
   \<and> spansOk (footprintPoints PlotCircle (actorAt (5, 5) 1 False))
   \<and> (3, 2) \<in> footprint PlotCircle (actorAt (2, 2) 2 True)
   \<and> (3, 2) \<notin> footprint PlotCircle (actorAt (5, 5) 1 False)
   \<and> QuerySearchMap layoutValues (uniformStore 6 6 1) (3, 2) AND ACTOR flagValues = 0
   \<and> QuerySearchMap layoutValues (uniformStore 6 6 1) (3, 2) = 1
   \<and> searchMapAfter layoutValues
        (blockThenClear flagValues layoutValues PlotCircle [actorAt (5, 5) 1 False] (uniformStore 6 6 1)
           (actorAt (2, 2) 2 True)) (3, 2) = Inr 1"
proof -
  have ok: "spansOk (footprintPoints PlotCircle (actorAt (2, 2) 2 True))"
    by (rule footprintPoints_spansOk)
  have oks: "\<forall>n \<in> set [actorAt (5, 5) 1 False]. BlocksSearchMap n \<longrightarrow> spansOk (footprintPoints PlotCircle n)"
    by (simp add: footprintPoints_spansOk)
  have c: "(3, 2) \<in> footprint PlotCircle (actorAt (2, 2) 2 True)"
    by (simp add: footprint_size_2)
  have others: "\<forall>n \<in> set [actorAt (5, 5) 1 False]. BlocksSearchMap n \<longrightarrow> (3, 2) \<notin> footprint PlotCircle n"
    by (simp add: footprint_size_1)
  have q: "QuerySearchMap layoutValues (uniformStore 6 6 1) (3, 2) = 1"
    by (simp add: QuerySearchMap_uniformStore PointInside_def)
  have a: "QuerySearchMap layoutValues (uniformStore 6 6 1) (3, 2) AND ACTOR flagValues = 0"
    by (simp add: q flagValues_simps)
  from block_then_clear_restores [OF flags_ok_flagValues layout_ok_layoutValues ok oks c others,
      of "uniformStore 6 6 1"] a q
  have "searchMapAfter layoutValues
        (blockThenClear flagValues layoutValues PlotCircle [actorAt (5, 5) 1 False] (uniformStore 6 6 1)
           (actorAt (2, 2) 2 True)) (3, 2) = Inr 1"
    by (simp add: flagValues_simps)
  moreover have "BlocksSearchMap (actorAt (5, 5) 1 False)"
    by (simp add: actorAt_def)
  moreover have "spansOk (footprintPoints PlotCircle (actorAt (5, 5) 1 False))"
    by (rule footprintPoints_spansOk)
  moreover have "(3, 2) \<notin> footprint PlotCircle (actorAt (5, 5) 1 False)"
    by (simp add: footprint_size_1)
  ultimately show ?thesis
    using flags_ok_flagValues layout_ok_layoutValues ok c a q by blast
qed

theorem block_then_clear_drops_earlier_mark:
  "(1, 1) \<in> footprint PlotCircle (actorAt (1, 1) 1 False)
   \<and> QuerySearchMap layoutValues (uniformStore 4 4 65) (1, 1) = 65
   \<and> searchMapAfter layoutValues
        (blockThenClear flagValues layoutValues PlotCircle [] (uniformStore 4 4 65) (actorAt (1, 1) 1 False))
        (1, 1) = Inr 1"
proof -
  have c: "(1, 1) \<in> footprint PlotCircle (actorAt (1, 1) 1 False)"
    by (simp add: footprint_size_1)
  have q: "QuerySearchMap layoutValues (uniformStore 4 4 65) (1, 1) = 65"
    by (simp add: QuerySearchMap_uniformStore PointInside_def)
  from block_then_clear_cell [OF flags_ok_flagValues layout_ok_layoutValues footprintPoints_spansOk _ c,
      of "[]" "uniformStore 4 4 65"]
  have "searchMapAfter layoutValues
        (blockThenClear flagValues layoutValues PlotCircle [] (uniformStore 4 4 65) (actorAt (1, 1) 1 False))
        (1, 1) = Inr 1"
    by (simp add: q flagValues_simps)
  with c q show ?thesis by blast
qed

section \<open>Fog of war: the explored bitmap and the queries\<close>

lemma fold_preserves:
  assumes "\<And>x s. P s \<Longrightarrow> P (f x s)" and "P s"
  shows "P (fold f xs s)"
  using assms(2) by (induction xs arbitrary: s) (simp_all add: assms(1))

lemma ExploreTile_explored:
  "bits (ExploredBitmap m) q \<Longrightarrow> bits (ExploredBitmap (ExploreTile ex m fogP fogOnly)) q"
  by (simp add: ExploreTile_def Let_def Bitmap_set_def)

lemma exploreRay_explored:
  "bits (ExploredBitmap m) q \<Longrightarrow>
   bits (ExploredBitmap (exploreRay mc fl tc ex fogOfTile pos los p steps Pass st m)) q"
proof (induction steps arbitrary: Pass st m)
  case Nil
  then show ?case by simp
next
  case (Cons i rest)
  have step: "\<And>Pass' st' ft fo.
      bits (ExploredBitmap (exploreRay mc fl tc ex fogOfTile pos los p rest Pass' st' (ExploreTile ex m ft fo))) q"
    by (rule Cons.IH) (rule ExploreTile_explored [OF Cons.prems])
  show ?case
  proof (cases "los = 0")
    case True
    show ?thesis using step by (simp add: True)
  next
    case False
    show ?thesis using step Cons.prems by (simp add: False Let_def)
  qed
qed

lemma ExploreMapChunk_explored:
  "bits (ExploredBitmap m) q \<Longrightarrow>
   bits (ExploredBitmap (ExploreMapChunk mc fl tc ex fogOfTile m pos range0 los)) q"
  unfolding ExploreMapChunk_def Let_def
  by (rule fold_preserves) (simp_all add: exploreRay_explored)

lemma updateFogActor_explored:
  "bits (ExploredBitmap m) q \<Longrightarrow>
   bits (ExploredBitmap (updateFogActor mc fl tc ex fogOfTile actor m)) q"
  by (simp add: updateFogActor_def Let_def ExploreMapChunk_explored)

lemma UpdateFog_explored:
  "bits (ExploredBitmap m) q \<Longrightarrow>
   bits (ExploredBitmap (UpdateFog mc fl tc ex fogOfTile inCutScene m)) q"
  unfolding UpdateFog_def Let_def
  by (rule fold_preserves) (simp_all add: updateFogActor_explored)

lemma runFogCall_explored:
  "bits (ExploredBitmap m) q \<Longrightarrow>
   bits (ExploredBitmap (runFogCall mc fl tc ex fogOfTile call m)) q"
  by (cases call) (simp_all add: ExploreTile_explored ExploreMapChunk_explored UpdateFog_explored)

text \<open>
  C6. No sequence of calls of \<open>ExploreTile\<close>, \<open>ExploreMapChunk\<close> and \<open>UpdateFog\<close> clears a
  bit of the explored bitmap: a fog-cell whose bit is set keeps it after every such sequence
  (\<open>FillExplored\<close>, the explicit reset, is not among the calls).
\<close>

theorem explored_never_cleared:
  assumes "bits (ExploredBitmap m) q"
  shows "bits (ExploredBitmap (runFogCalls mc fl tc ex fogOfTile calls m)) q"
  unfolding runFogCalls_def
  by (rule fold_preserves) (simp_all add: runFogCall_explored assms)

theorem explored_never_cleared_witness:
  "bits (ExploredBitmap smallMap) (0, 0)
   \<and> bits (ExploredBitmap (runFogCalls mapConstValues flagValues layoutValues (Explore_Get True) halve
        [CallExploreTile (1, 1) False, CallUpdateFog False, CallExploreMapChunk (2, 2) 3 0, CallUpdateFog True]
        smallMap)) (0, 0)"
proof -
  have h: "bits (ExploredBitmap smallMap) (0, 0)"
    by (simp add: smallMap_def Bitmap_set_def)
  from explored_never_cleared [OF h] h show ?thesis by blast
qed

text \<open>
  C7. For every point \<open>p\<close>, \<open>FogTileUncovered\<close> reports the point uncovered when the bitmap
  pointer is null; otherwise it reports it foggy when \<open>p\<close> maps to a fog-cell outside the bounds
  of the bitmap, and returns the stored bit when the fog-cell is inside. \<open>IsVisible\<close> and
  \<open>IsExplored\<close> are this function on the visible and on the explored bitmap of the map.
\<close>

theorem fog_tile_uncovered_cases:
  "FogTileUncovered fogOfPoint p None = True
   \<and> FogTileUncovered fogOfPoint p (Some bm)
       = (if PointInside (bm_size bm) (fogOfPoint p) then bits bm (fogOfPoint p) else False)
   \<and> IsVisible fogOfPoint m p = FogTileUncovered fogOfPoint p (Some (VisibleBitmap m))
   \<and> IsExplored fogOfPoint m p = FogTileUncovered fogOfPoint p (Some (ExploredBitmap m))"
  by (simp add: FogTileUncovered_def Bitmap_GetAt_def IsVisible_def IsExplored_def)

section \<open>The partition of the walls\<close>

lemma classifyGroup_filter:
  "classifyGroup mc intersects pointBehind r includeDisabled loc wps (infront, behind) =
     (infront @ filter (\<lambda>wp. \<not> (wallFlag wp AND WF_DISABLED mc \<noteq> 0 \<and> includeDisabled = False)
                         \<and> intersects r (BBox wp)
                         \<and> (case loc of None \<Rightarrow> True | Some l \<Rightarrow> pointBehind wp l)) wps,
      behind @ filter (\<lambda>wp. \<not> (wallFlag wp AND WF_DISABLED mc \<noteq> 0 \<and> includeDisabled = False)
                         \<and> intersects r (BBox wp)
                         \<and> \<not> (case loc of None \<Rightarrow> True | Some l \<Rightarrow> pointBehind wp l)) wps)"
  by (induction wps arbitrary: infront behind) auto

lemma classifyGroups_filter:
  "\<forall>i \<in> set is. i < length groups \<Longrightarrow>
   classifyGroups mc intersects pointBehind r includeDisabled loc groups is (infront, behind) =
     Inr (infront @ filter (\<lambda>wp. \<not> (wallFlag wp AND WF_DISABLED mc \<noteq> 0 \<and> includeDisabled = False)
                         \<and> intersects r (BBox wp)
                         \<and> (case loc of None \<Rightarrow> True | Some l \<Rightarrow> pointBehind wp l))
                      (concat (map (\<lambda>i. groups ! i) is)),
          behind @ filter (\<lambda>wp. \<not> (wallFlag wp AND WF_DISABLED mc \<noteq> 0 \<and> includeDisabled = False)
                         \<and> intersects r (BBox wp)
                         \<and> \<not> (case loc of None \<Rightarrow> True | Some l \<Rightarrow> pointBehind wp l))
                      (concat (map (\<lambda>i. groups ! i) is)))"
proof (induction "is" arbitrary: infront behind)
  case Nil
  show ?case by simp
next
  case (Cons i rest)
  then have i: "i < length groups" and rest: "\<forall>i \<in> set rest. i < length groups" by simp_all
  show ?case
    by (simp add: i classifyGroup_filter Cons.IH [OF rest])
qed

lemma WallsIntersectingRegion_filter:
  assumes "\<forall>i \<in> set (visitedGroups m (clipRegion r)). i < length (wallGroups m)"
  shows "WallsIntersectingRegion mc intersects pointBehind m r includeDisabled loc =
     Inr (filter (\<lambda>wp. passesFilters mc intersects r includeDisabled wp
                       \<and> (case loc of None \<Rightarrow> True | Some l \<Rightarrow> pointBehind wp l)) (visitedWalls m r),
          filter (\<lambda>wp. passesFilters mc intersects r includeDisabled wp
                       \<and> \<not> (case loc of None \<Rightarrow> True | Some l \<Rightarrow> pointBehind wp l)) (visitedWalls m r))"
  using classifyGroups_filter [OF assms, of mc intersects pointBehind "clipRegion r" includeDisabled loc "[]" "[]"]
  by (simp add: WallsIntersectingRegion_def Let_def visitedWalls_def passesFilters_def)

lemma out_of_range_group:
  "\<not> (\<forall>i \<in> set is. i < length groups) \<Longrightarrow>
   classifyGroups mc intersects pointBehind r includeDisabled loc groups is acc = Inl OutOfRange"
  by (induction "is" arbitrary: acc) auto

lemma upt_0_2: "[0..<2] = [0, Suc 0]"
  by (simp add: upt_rec)

lemma visitedGroups_view: "visitedGroups wallMap (clipRegion viewRegion) = [0, 1]"
  by (simp add: visitedGroups_def clipRegion_def viewRegion_def wallMap_def smallMap_def CeilDiv_def
      groupWidth_def groupHeight_def Let_def upt_0_2 upt_rec [of 0 "Suc 0"])

lemma visitedWalls_view:
  "visitedWalls wallMap viewRegion =
     [wallAt 0 10 10 50 50, wallAt 0x80 100 10 50 50, wallAt 0 600 20 100 30, wallAt 0 300 300 10 10,
      wallAt 0 600 20 100 30]"
  by (simp add: visitedWalls_def visitedGroups_view) (simp add: wallMap_def)

lemma in_range_view: "\<forall>i \<in> set (visitedGroups wallMap (clipRegion viewRegion)). i < length (wallGroups wallMap)"
  by (simp add: visitedGroups_view) (simp add: wallMap_def)

lemma passesFilters_view:
  "passesFilters mapConstValues rectsOverlap viewRegion False (wallAt flag x y wd ht)
     \<longleftrightarrow> flag AND 0x80 = 0 \<and> 0 < x + wd \<and> x < 690 \<and> 0 < y + ht \<and> y < 100"
  by (auto simp add: passesFilters_def clipRegion_def viewRegion_def wallAt_def rectsOverlap_def
      mapConstValues_def)




lemma unat_min: "unat (min a b) = min (unat a) (unat (b :: 32 word))"
  by (simp add: min_def word_le_nat_alt)

lemma group_index:
  fixes pitch :: "32 word"
  assumes "gy * unat pitch + gx < 2 ^ 32"
  shows "unat ((of_nat gy :: 32 word) * pitch + of_nat gx) = gy * unat pitch + gx"
proof -
  have "(of_nat gy :: 32 word) * pitch + of_nat gx = of_nat (gy * unat pitch + gx)"
    by simp
  then have "unat ((of_nat gy :: 32 word) * pitch + of_nat gx) = (gy * unat pitch + gx) mod 2 ^ 32"
    by (simp only: unat_of_nat) simp
  with assms show ?thesis by simp
qed







lemma visitedGroups_in_range:
  assumes cover: "groupsCover m" and nof: "gridHeight m * gridPitch m < 2 ^ 32"
  shows "\<forall>i \<in> set (visitedGroups m c). i < length (wallGroups m)"
proof
  fix i
  assume "i \<in> set (visitedGroups m c)"
  then obtain gy gx where lt: "gy < gridHeight m" "gx < gridPitch m"
    and i: "i = unat ((of_nat gy :: 32 word) * CeilDiv (word_of_int (XCellCount m * 64)) groupWidth + of_nat gx)"
    unfolding visitedGroups_def Let_def unat_min
    by (auto simp add: gridPitch_def gridHeight_def)
  from lt have b: "gy * gridPitch m + gx < gridHeight m * gridPitch m"
    by (metis add_less_cancel_left less_le_trans mult_Suc mult_le_mono1 Suc_leI add.commute)
  with nof have "gy * unat (CeilDiv (word_of_int (XCellCount m * 64)) groupWidth) + gx < 2 ^ 32"
    by (simp add: gridPitch_def)
  then have "i = gy * gridPitch m + gx"
    unfolding i by (simp add: group_index gridPitch_def)
  with b cover show "i < length (wallGroups m)" by (simp add: groupsCover_def)
qed





text \<open>
  C10. With a null reference point every wall of the visited groups that passes the
  disabled-flag and bounding-box filters is put in the first (``in front'') group, in the
  order of the visit, and the second (``behind'') group is empty.
\<close>

theorem walls_without_reference_point:
  assumes "\<forall>i \<in> set (visitedGroups m (clipRegion r)). i < length (wallGroups m)"
  shows "WallsIntersectingRegion mc intersects pointBehind m r includeDisabled None =
           Inr (filter (passesFilters mc intersects r includeDisabled) (visitedWalls m r), [])"
  unfolding WallsIntersectingRegion_filter [OF assms]
  by simp

theorem walls_without_reference_point_witness:
  "WallsIntersectingRegion mapConstValues rectsOverlap aboveBase wallMap viewRegion False None
     = Inr ([wallAt 0 10 10 50 50, wallAt 0 600 20 100 30, wallAt 0 600 20 100 30], [])"
  using walls_without_reference_point [OF in_range_view, of mapConstValues rectsOverlap aboveBase False]
  by (simp add: visitedWalls_view passesFilters_view)

end
